theory Spec2Isabelle
  imports Complex_Main "HOL-Library.Word" "HOL-Library.Multiset" "HOL-Library.Signed_Division"
begin

section \<open>Constants of the renderer (Renderer.h)\<close>

definition NUM_CLUSTER_X :: nat where "NUM_CLUSTER_X = 16"
definition NUM_CLUSTER_Y :: nat where "NUM_CLUSTER_Y = 8"
definition NUM_CLUSTER_Z :: nat where "NUM_CLUSTER_Z = 8"
definition MAX_LIGHTS :: nat where "MAX_LIGHTS = 255"
definition MAX_LIGHTS_CLUSTER :: nat where "MAX_LIGHTS_CLUSTER = 16"

section \<open>Basic data\<close>

datatype LightType = LIGHT_DIRECTIONAL | LIGHT_POINT | LIGHT_SPOT

datatype ShadowRenderMode =
    RENDER_DYNAMIC_LIGHT
  | RENDER_STATIC_LIGHT_STORE_STATIC
  | RENDER_STATIC_LIGHT_RESTORE_STATIC
  | RENDER_STATIC_LIGHT_CACHED

record IntRect =
  left :: int
  top :: int
  right :: int
  bottom :: int

definition IntRect_ZERO :: IntRect where
  "IntRect_ZERO = \<lparr>left = 0, top = 0, right = 0, bottom = 0\<rparr>"

definition Width :: "IntRect \<Rightarrow> int" where
  "Width r = right r - left r"

definition Height :: "IntRect \<Rightarrow> int" where
  "Height r = bottom r - top r"

text \<open>A texture object is known to the renderer by its address only.\<close>

type_synonym Texture = nat

text \<open>
  The fields of a shadow view that the renderer reads and writes. The matrix type is
  left open: the renderer only copies matrices and compares them with
  \<^verbatim>\<open>Matrix4::Equals(m, 0.0001f)\<close>, which is passed to the model as \<open>matEquals\<close>.
  \<open>viewLight\<close> is the address of the owning light.
\<close>

record 'm ShadowView =
  viewLight :: nat
  viewport :: IntRect
  lastViewport :: IntRect
  shadowMatrix :: 'm
  lastShadowMatrix :: 'm
  lastNumGeometries :: nat
  renderMode :: ShadowRenderMode
  casterListIdx :: nat
  staticQueueIdx :: nat
  dynamicQueueIdx :: nat

section \<open>Frame number stamp (Renderer::PrepareView)\<close>

text \<open>
  The member \<^verbatim>\<open>frameNumber\<close> is an \<^verbatim>\<open>unsigned short\<close>. PrepareView does
  \<^verbatim>\<open>++frameNumber; if (!frameNumber) ++frameNumber;\<close>
\<close>

definition nextFrameNumber :: "16 word \<Rightarrow> 16 word" where
  "nextFrameNumber frameNumber =
     (let f1 = frameNumber + 1 in if f1 = 0 then f1 + 1 else f1)"

section \<open>Shadow render mode of a view (Renderer::CollectShadowBatchesWork)\<close>

text \<open>
  A shadowcaster candidate as the caster loop sees it. The geometric tests are
  floating-point computations on bounding boxes; their outcomes are fields:
  \<open>insideShadowFrustum\<close> is \<^verbatim>\<open>shadowFrustum.IsInsideFast(geometryBox)\<close>,
  \<open>insideLightViewFrustum\<close> is the outcome of the extrusion test
  \<^verbatim>\<open>lightViewFrustum.IsInsideFast(lightViewBox)\<close>, \<open>prepareOk\<close> is the result of
  \<^verbatim>\<open>OnPrepareRender(frameNumber, camera)\<close>, and \<open>lastUpdateFrameNumber\<close> is the stamp
  read after that call.
\<close>

record Caster =
  inView :: bool
  staticNode :: bool
  insideShadowFrustum :: bool
  insideLightViewFrustum :: bool
  prepareOk :: bool
  lastUpdateFrameNumber :: "16 word"

record CasterTotals =
  totalShadowCasters :: nat
  staticShadowCasters :: nat
  dynamicCastersMoved :: bool
  staticCastersMoved :: bool

definition noCasters :: CasterTotals where
  "noCasters = \<lparr>totalShadowCasters = 0, staticShadowCasters = 0,
                 dynamicCastersMoved = False, staticCastersMoved = False\<rparr>"

text \<open>One round of the caster loop; each \<^verbatim>\<open>continue\<close> leaves the totals as they are.\<close>

definition collectCaster ::
  "16 word \<Rightarrow> LightType \<Rightarrow> bool \<Rightarrow> Caster \<Rightarrow> CasterTotals \<Rightarrow> CasterTotals" where
  "collectCaster frameNumber lightType dynamicOrDirLight c t =
     (if lightType = LIGHT_POINT \<and> \<not> insideShadowFrustum c then t
      else if (\<not> staticNode c \<or> dynamicOrDirLight) \<and> \<not> inView c
              \<and> \<not> insideLightViewFrustum c then t
      else if \<not> inView c \<and> \<not> prepareOk c then t
      else
        let t1 = t\<lparr>totalShadowCasters := totalShadowCasters t + 1\<rparr> in
        if staticNode c then
          (let t2 = t1\<lparr>staticShadowCasters := staticShadowCasters t1 + 1\<rparr> in
           if lastUpdateFrameNumber c = frameNumber
           then t2\<lparr>staticCastersMoved := True\<rparr> else t2)
        else
          (if lastUpdateFrameNumber c = frameNumber
           then t1\<lparr>dynamicCastersMoved := True\<rparr> else t1))"

text \<open>The choice of the render mode, lines 1346 to 1376 of the renderer.\<close>

definition chooseRenderMode ::
  "('m \<Rightarrow> 'm \<Rightarrow> bool) \<Rightarrow> bool \<Rightarrow> CasterTotals \<Rightarrow> 'm ShadowView \<Rightarrow> ShadowRenderMode" where
  "chooseRenderMode matEquals dynamicOrDirLight t view =
     (if dynamicOrDirLight then
        (if lastViewport view \<noteq> viewport view
            \<or> \<not> matEquals (lastShadowMatrix view) (shadowMatrix view)
            \<or> lastNumGeometries view \<noteq> totalShadowCasters t
            \<or> dynamicCastersMoved t \<or> staticCastersMoved t
         then RENDER_DYNAMIC_LIGHT
         else RENDER_STATIC_LIGHT_CACHED)
      else
        (if lastViewport view \<noteq> viewport view
            \<or> \<not> matEquals (lastShadowMatrix view) (shadowMatrix view)
         then RENDER_STATIC_LIGHT_STORE_STATIC
         else if staticCastersMoved t then RENDER_STATIC_LIGHT_STORE_STATIC
         else if dynamicCastersMoved t \<or> lastNumGeometries view \<noteq> totalShadowCasters t
         then (if staticShadowCasters t > 0
               then RENDER_STATIC_LIGHT_RESTORE_STATIC else RENDER_DYNAMIC_LIGHT)
         else RENDER_STATIC_LIGHT_CACHED))"

text \<open>
  The body of the \<^verbatim>\<open>for (;;)\<close> loop for one view, from the test
  \<^verbatim>\<open>view.viewport == IntRect::ZERO\<close> on. The shadow batches pushed to the queues
  do not influence the render mode and are left out.
\<close>

definition CollectShadowBatches_view ::
  "('m \<Rightarrow> 'm \<Rightarrow> bool) \<Rightarrow> 16 word \<Rightarrow> LightType \<Rightarrow> bool \<Rightarrow> Caster list
     \<Rightarrow> 'm ShadowView \<Rightarrow> 'm ShadowView" where
  "CollectShadowBatches_view matEquals frameNumber lightType lightIsStatic
       initialShadowCasters view =
     (if viewport view = IntRect_ZERO then
        view\<lparr>renderMode := RENDER_STATIC_LIGHT_CACHED, lastViewport := IntRect_ZERO\<rparr>
      else
        let dynamicOrDirLight = (lightType = LIGHT_DIRECTIONAL \<or> \<not> lightIsStatic);
            t = fold (collectCaster frameNumber lightType dynamicOrDirLight)
                  initialShadowCasters noCasters;
            view1 = view\<lparr>renderMode := chooseRenderMode matEquals dynamicOrDirLight t view\<rparr>
        in
          if renderMode view1 = RENDER_STATIC_LIGHT_CACHED
          then view1\<lparr>shadowMatrix := lastShadowMatrix view1\<rparr>
          else view1\<lparr>lastViewport := viewport view1,
                     lastNumGeometries := totalShadowCasters t,
                     lastShadowMatrix := shadowMatrix view1\<rparr>)"

text \<open>
  What the caster loop accepts, and what its four results mean, said without the loop.
\<close>

definition casterAccepted :: "LightType \<Rightarrow> bool \<Rightarrow> Caster \<Rightarrow> bool" where
  "casterAccepted lightType dynamicOrDirLight c =
     (\<not> (lightType = LIGHT_POINT \<and> \<not> insideShadowFrustum c)
      \<and> \<not> ((\<not> staticNode c \<or> dynamicOrDirLight) \<and> \<not> inView c \<and> \<not> insideLightViewFrustum c)
      \<and> \<not> (\<not> inView c \<and> \<not> prepareOk c))"

definition acceptedCasters :: "LightType \<Rightarrow> bool \<Rightarrow> Caster list \<Rightarrow> Caster list" where
  "acceptedCasters lightType dynamicOrDirLight cs =
     filter (casterAccepted lightType dynamicOrDirLight) cs"

section \<open>Shadow maps, lights and the renderer state\<close>

text \<open>
  Reading \<^verbatim>\<open>v[i]\<close> of a \<^verbatim>\<open>std::vector\<close> beyond its size is undefined
  behaviour; the model makes it a fault.
\<close>

datatype fault = OutOfRange

definition vector_at :: "'a list \<Rightarrow> nat \<Rightarrow> fault + 'a" where
  "vector_at v i = (if i < length v then Inr (v ! i) else Inl OutOfRange)"

definition resize_vector :: "nat \<Rightarrow> 'a \<Rightarrow> 'a list \<Rightarrow> 'a list" where
  "resize_vector n d v = take n v @ replicate (n - length v) d"

text \<open>
  A draw batch. Passes, geometries and drawables are known by address. Whether the
  shader program of the batch binds (\<^verbatim>\<open>program->Bind()\<close>) and whether the geometry
  has an index buffer are results of the graphics layer, kept as fields.
\<close>

record Batch =
  pass :: nat
  geometry :: nat
  programBits :: "8 word"
  geomIndex :: "8 word"
  instanceStart :: nat
  instanceCount :: nat
  programBinds :: bool
  hasIndexBuffer :: bool

text \<open>
  A shadow map. The rectangle allocator (\<^verbatim>\<open>AreaAllocator\<close>) is a class of the engine
  outside the renderer; its state is the type parameter \<open>'a\<close>. A shadow view is referred
  to by the address of its light and its position in the light's view array.
\<close>

record 'a ShadowMap =
  freeQueueIdx :: nat
  freeCasterListIdx :: nat
  allocator :: 'a
  texture :: Texture
  textureWidth :: int
  textureHeight :: int
  shadowViews :: "(nat \<times> nat) list"
  shadowBatches :: "Batch list list"
  shadowCasters :: "nat list list"

text \<open>
  The operations of the rectangle allocator that the renderer calls. Each returns its
  result and the allocator afterwards.
\<close>

record 'a AreaAllocator =
  Reset :: "int \<Rightarrow> int \<Rightarrow> 'a \<Rightarrow> 'a"
  AllocateSpecific :: "IntRect \<Rightarrow> 'a \<Rightarrow> bool \<times> 'a"
  Allocate :: "int \<Rightarrow> int \<Rightarrow> 'a \<Rightarrow> (int \<times> int) option \<times> 'a"

text \<open>
  A light drawable, with the accessors the renderer uses. Distances, colour averages and
  shadow strengths are floats in the source and reals here (no NaN). \<open>lightShadowMap\<close>
  is the texture pointer of \<^verbatim>\<open>ShadowMap()\<close>, \<open>None\<close> for null.
\<close>

record 'm LightDrawable =
  lightAddr :: nat
  GetLightType :: LightType
  Distance :: real
  ColorAverage :: real
  ShadowStrength :: real
  TotalShadowMapSize :: "int \<times> int"
  IsStatic :: bool
  lightShadowMap :: "Texture option"
  ShadowRect :: IntRect
  ShadowViews :: "'m ShadowView list"

text \<open>
  \<^verbatim>\<open>LightDrawable::SetShadowMap(texture, rect = IntRect::ZERO)\<close> is declared in the
  light's header: it stores both arguments.
\<close>

definition SetShadowMap :: "Texture option \<Rightarrow> IntRect \<Rightarrow> 'm LightDrawable \<Rightarrow> 'm LightDrawable" where
  "SetShadowMap tex rect light = light\<lparr>lightShadowMap := tex, ShadowRect := rect\<rparr>"

section \<open>Renderer::ShadowMapTexture\<close>

text \<open>\<^verbatim>\<open>return index < shadowMaps.size() ? shadowMaps[index].texture : nullptr;\<close>\<close>

definition ShadowMapTexture :: "'a ShadowMap list \<Rightarrow> nat \<Rightarrow> fault + Texture option" where
  "ShadowMapTexture shadowMaps index =
     (if index < length shadowMaps
      then (case vector_at shadowMaps index of
              Inl f \<Rightarrow> Inl f
            | Inr shadowMap \<Rightarrow> Inr (Some (texture shadowMap)))
      else Inr None)"

section \<open>Renderer::AllocateShadowMap\<close>

text \<open>
  The retry loop \<^verbatim>\<open>size_t retries = 3; while (retries--) { ... }\<close>. The request is
  halved with C++ integer division, which truncates towards zero.
\<close>

fun allocateRetry ::
  "'a AreaAllocator \<Rightarrow> nat \<Rightarrow> int \<times> int \<Rightarrow> 'a \<Rightarrow> IntRect option \<times> 'a" where
  "allocateRetry ops 0 request a = (None, a)"
| "allocateRetry ops (Suc retries) request a =
     (case Allocate ops (fst request) (snd request) a of
        (Some (x, y), a') \<Rightarrow>
          (Some \<lparr>left = x, top = y, right = x + fst request, bottom = y + snd request\<rparr>, a')
      | (None, a') \<Rightarrow>
          allocateRetry ops retries (fst request sdiv 2, snd request sdiv 2) a')"

text \<open>
  AllocateShadowMap on the shadow map of the light's type: the result, the light and the
  shadow map afterwards.
\<close>

definition AllocateShadowMap_in ::
  "'a AreaAllocator \<Rightarrow> 'm LightDrawable \<Rightarrow> 'a ShadowMap
     \<Rightarrow> bool \<times> 'm LightDrawable \<times> 'a ShadowMap" where
  "AllocateShadowMap_in ops light shadowMap =
     (let request = TotalShadowMapSize light;
          oldRect = ShadowRect light;
          sameSize = (fst request = Width oldRect \<and> snd request = Height oldRect);
          specific = (if sameSize then AllocateSpecific ops oldRect (allocator shadowMap)
                      else (False, allocator shadowMap))
      in
        if sameSize \<and> fst specific then
          (True, SetShadowMap (Some (texture shadowMap)) (ShadowRect light) light,
           shadowMap\<lparr>allocator := snd specific\<rparr>)
        else
          (case allocateRetry ops 3 request (snd specific) of
             (Some rect, a') \<Rightarrow>
               (True, SetShadowMap (Some (texture shadowMap)) rect light,
                shadowMap\<lparr>allocator := a'\<rparr>)
           | (None, a') \<Rightarrow>
               (False, SetShadowMap None IntRect_ZERO light, shadowMap\<lparr>allocator := a'\<rparr>)))"

text \<open>
  \<^verbatim>\<open>size_t index = light->GetLightType() == LIGHT_DIRECTIONAL ? 0 : 1;
  ShadowMap& shadowMap = shadowMaps[index];\<close>
\<close>

definition AllocateShadowMap ::
  "'a AreaAllocator \<Rightarrow> 'm LightDrawable \<Rightarrow> 'a ShadowMap list
     \<Rightarrow> fault + (bool \<times> 'm LightDrawable \<times> 'a ShadowMap list)" where
  "AllocateShadowMap ops light shadowMaps =
     (let index = (if GetLightType light = LIGHT_DIRECTIONAL then 0 else 1) in
      case vector_at shadowMaps index of
        Inl f \<Rightarrow> Inl f
      | Inr shadowMap \<Rightarrow>
          (case AllocateShadowMap_in ops light shadowMap of
             (ok, light', shadowMap') \<Rightarrow> Inr (ok, light', shadowMaps[index := shadowMap'])))"

text \<open>
  Whether the re-claim of the previous rectangle succeeds, and the allocator after that
  attempt, which is made only when the previous rectangle has the requested size.
\<close>

definition reclaimed :: "'a AreaAllocator \<Rightarrow> 'm LightDrawable \<Rightarrow> 'a ShadowMap \<Rightarrow> bool" where
  "reclaimed ops light shadowMap =
     (fst (TotalShadowMapSize light) = Width (ShadowRect light)
      \<and> snd (TotalShadowMapSize light) = Height (ShadowRect light)
      \<and> fst (AllocateSpecific ops (ShadowRect light) (allocator shadowMap)))"

definition afterReclaim :: "'a AreaAllocator \<Rightarrow> 'm LightDrawable \<Rightarrow> 'a ShadowMap \<Rightarrow> 'a" where
  "afterReclaim ops light shadowMap =
     (if fst (TotalShadowMapSize light) = Width (ShadowRect light)
         \<and> snd (TotalShadowMapSize light) = Height (ShadowRect light)
      then snd (AllocateSpecific ops (ShadowRect light) (allocator shadowMap))
      else allocator shadowMap)"

text \<open>
  The fresh allocation as claim C3 words it: one attempt at the requested size and, on
  failure, up to three retries, each at half the width and height of the attempt before.
\<close>

fun retryHalving_spec ::
  "'a AreaAllocator \<Rightarrow> nat \<Rightarrow> int \<times> int \<Rightarrow> 'a \<Rightarrow> IntRect option \<times> 'a" where
  "retryHalving_spec ops 0 request a = (None, a)"
| "retryHalving_spec ops (Suc n) request a =
     (let w = fst request sdiv 2; h = snd request sdiv 2 in
      case Allocate ops w h a of
        (Some (x, y), a') \<Rightarrow> (Some \<lparr>left = x, top = y, right = x + w, bottom = y + h\<rparr>, a')
      | (None, a') \<Rightarrow> retryHalving_spec ops n (w, h) a')"

definition freshAllocation_spec ::
  "'a AreaAllocator \<Rightarrow> int \<times> int \<Rightarrow> 'a \<Rightarrow> IntRect option \<times> 'a" where
  "freshAllocation_spec ops request a =
     (case Allocate ops (fst request) (snd request) a of
        (Some (x, y), a') \<Rightarrow>
          (Some \<lparr>left = x, top = y, right = x + fst request, bottom = y + snd request\<rparr>, a')
      | (None, a') \<Rightarrow> retryHalving_spec ops 3 request a')"

section \<open>The renderer state and the work queue\<close>

text \<open>
  An octant of the octree: its drawables (by address) and its eight child pointers,
  \<open>None\<close> for null.
\<close>

datatype Octant = Octant (drawables: "nat list") (children: "Octant option list")

text \<open>The tasks of a frame, named after their task structures.\<close>

datatype Task =
    CollectOctantsTask nat
  | CollectBatchesTask nat nat
  | ProcessLightsTask
  | CollectShadowCastersTask nat
  | ProcessShadowCastersTask
  | CollectShadowBatchesTask nat nat
  | CullLightsTask nat

text \<open>
  Modelled from the spec: the work queue (\<^verbatim>\<open>Thread/WorkQueue.h\<close>) is not among the
  sources. The spec describes it as a queue of tasks with "depends-on" edges, where a
  task becomes eligible only after all its dependencies complete, and a blocking
  "complete all" operation. The model keeps the queued tasks in order and the edges as
  pairs (waiting task, task waited for), and runs the tasks one after the other.
\<close>

record WorkQueue =
  queuedTasks :: "Task list"
  dependencies :: "(Task \<times> Task) list"

definition AddDependency :: "Task \<Rightarrow> Task \<Rightarrow> WorkQueue \<Rightarrow> WorkQueue" where
  "AddDependency waiter prerequisite wq =
     wq\<lparr>dependencies := dependencies wq @ [(waiter, prerequisite)]\<rparr>"

definition QueueTasks :: "Task list \<Rightarrow> WorkQueue \<Rightarrow> WorkQueue" where
  "QueueTasks tasks wq = wq\<lparr>queuedTasks := queuedTasks wq @ tasks\<rparr>"

text \<open>
  Modelled from the spec: when a task completes, its edges are removed, and a dependent
  left without edges is queued.
\<close>

definition completeTask :: "Task \<Rightarrow> WorkQueue \<Rightarrow> WorkQueue" where
  "completeTask t wq =
     (let waiting = remdups (map fst (filter (\<lambda>e. snd e = t) (dependencies wq)));
          rest = filter (\<lambda>e. snd e \<noteq> t) (dependencies wq);
          eligible = filter (\<lambda>d. d \<notin> set (map fst rest)) waiting
      in wq\<lparr>queuedTasks := queuedTasks wq @ eligible, dependencies := rest\<rparr>)"

record 'm ThreadOctantResult =
  drawableAcc :: nat
  taskOctantIdx :: nat
  batchTaskIdx :: nat
  octants :: "(Octant \<times> 8 word) list"
  collectedLights :: "'m LightDrawable list"

record ThreadBatchResult =
  resultOpaqueBatches :: "Batch list"
  resultAlphaBatches :: "Batch list"

text \<open>
  The members of the renderer that the modelled functions use. The float members
  (\<^verbatim>\<open>minZ\<close>, \<^verbatim>\<open>maxZ\<close>, bounds, light data) are left out. In \<open>ThreadOctantResult\<close> and
  \<open>ThreadBatchResult\<close> the members \<^verbatim>\<open>lights\<close>, \<^verbatim>\<open>opaqueBatches\<close> and
  \<^verbatim>\<open>alphaBatches\<close> are renamed, since the renderer has members of the same names.
\<close>

record ('a, 'm) Renderer =
  frameNumber :: "16 word"
  drawShadows :: bool
  shadowMapsDirty :: bool
  rootLevelOctants :: "Octant list"
  numPendingBatchTasks :: int
  numPendingShadowViews :: "int list"
  octantResults :: "'m ThreadOctantResult list"
  batchResults :: "ThreadBatchResult list"
  dirLight :: "'m LightDrawable option"
  lights :: "'m LightDrawable list"
  shadowMaps :: "'a ShadowMap list"
  opaqueBatches :: "Batch list"
  alphaBatches :: "Batch list"
  workQueue :: WorkQueue

section \<open>Renderer::ProcessLightsWork\<close>

text \<open>A loop over a vector that rewrites each element and can fault.\<close>

fun mapF :: "('x \<Rightarrow> 's \<Rightarrow> fault + ('y \<times> 's)) \<Rightarrow> 'x list \<Rightarrow> 's \<Rightarrow> fault + ('y list \<times> 's)" where
  "mapF f [] s = Inr ([], s)"
| "mapF f (x # xs) s =
     (case f x s of
        Inl e \<Rightarrow> Inl e
      | Inr (y, s') \<Rightarrow>
          (case mapF f xs s' of
             Inl e \<Rightarrow> Inl e
           | Inr (ys, s'') \<Rightarrow> Inr (y # ys, s'')))"

text \<open>
  "Find the directional light if any": the loop erases every directional light from the
  vector and keeps in \<^verbatim>\<open>dirLight\<close> the first one whose colour average is greater
  than that of the one kept so far.
\<close>

fun findDirLight ::
  "'m LightDrawable list \<Rightarrow> 'm LightDrawable option
     \<Rightarrow> 'm LightDrawable list \<times> 'm LightDrawable option" where
  "findDirLight [] d = ([], d)"
| "findDirLight (light # rest) d =
     (if GetLightType light = LIGHT_DIRECTIONAL then
        findDirLight rest
          (case d of
             None \<Rightarrow> Some light
           | Some cur \<Rightarrow> if ColorAverage light > ColorAverage cur then Some light else Some cur)
      else
        (case findDirLight rest d of (kept, d') \<Rightarrow> (light # kept, d')))"

text \<open>
  \<^verbatim>\<open>std::sort(lights.begin(), lights.end(), CompareLights)\<close> orders the lights by
  \<^verbatim>\<open>Distance()\<close>; the order it gives to lights at equal distance is not specified, and
  the model takes the stable one. Then \<^verbatim>\<open>lights.resize(MAX_LIGHTS)\<close> when there are more.
\<close>

definition sortLights :: "'m LightDrawable list \<Rightarrow> 'm LightDrawable list" where
  "sortLights ls = sort_key Distance ls"

definition clampLights :: "'m LightDrawable list \<Rightarrow> 'm LightDrawable list" where
  "clampLights ls = (if length ls > MAX_LIGHTS then take MAX_LIGHTS ls else ls)"

text \<open>The pre-step for shadow map caching, for one light.\<close>

definition reallocateShadowMap ::
  "'a AreaAllocator \<Rightarrow> bool \<Rightarrow> bool \<Rightarrow> 'm LightDrawable \<Rightarrow> 'a ShadowMap list
     \<Rightarrow> fault + ('m LightDrawable \<times> 'a ShadowMap list)" where
  "reallocateShadowMap ops dirty shadows light sms =
     (if dirty then Inr (SetShadowMap None IntRect_ZERO light, sms)
      else if shadows \<and> ShadowStrength light < 1 \<and> ShadowRect light \<noteq> IntRect_ZERO then
        (case AllocateShadowMap ops light sms of
           Inl e \<Rightarrow> Inl e
         | Inr (ok, light', sms') \<Rightarrow> Inr (light', sms'))
      else Inr (light, sms))"

text \<open>"Check if directional light needs shadows".\<close>

definition checkDirLight ::
  "'a AreaAllocator \<Rightarrow> bool \<Rightarrow> bool \<Rightarrow> 'm LightDrawable \<Rightarrow> 'a ShadowMap list
     \<Rightarrow> fault + ('m LightDrawable \<times> 'a ShadowMap list)" where
  "checkDirLight ops dirty shadows d sms =
     (let d1 = (if dirty then SetShadowMap None IntRect_ZERO d else d) in
      if \<not> shadows \<or> ShadowStrength d1 \<ge> 1 then Inr (SetShadowMap None IntRect_ZERO d1, sms)
      else
        (case AllocateShadowMap ops d1 sms of
           Inl e \<Rightarrow> Inl e
         | Inr (ok, d2, sms') \<Rightarrow>
             Inr (if \<not> ok then SetShadowMap None IntRect_ZERO d2 else d2, sms')))"

text \<open>
  The inner loop of the main loop: the batch queues of each view of a point or spot light
  are reserved, and a pointer to the view is pushed to the shadow map.
\<close>

fun reserveViews ::
  "bool \<Rightarrow> nat \<Rightarrow> nat \<Rightarrow> nat \<Rightarrow> 'm ShadowView list \<Rightarrow> 'a ShadowMap
     \<Rightarrow> 'm ShadowView list \<times> 'a ShadowMap" where
  "reserveViews static addr casterList j [] sm = ([], sm)"
| "reserveViews static addr casterList j (v # vs) sm =
     (let v1 = v\<lparr>casterListIdx := casterList\<rparr>;
          v2 = (if static
                then v1\<lparr>staticQueueIdx := freeQueueIdx sm, dynamicQueueIdx := freeQueueIdx sm + 1\<rparr>
                else v1\<lparr>dynamicQueueIdx := freeQueueIdx sm\<rparr>);
          sm1 = sm\<lparr>freeQueueIdx := freeQueueIdx sm + (if static then 2 else 1)\<rparr>;
          sm2 = (if length (shadowBatches sm1) < freeQueueIdx sm1
                 then sm1\<lparr>shadowBatches := resize_vector (freeQueueIdx sm1) [] (shadowBatches sm1)\<rparr>
                 else sm1);
          sm3 = sm2\<lparr>shadowViews := shadowViews sm2 @ [(addr, j)]\<rparr>
      in case reserveViews static addr casterList (j + 1) vs sm3 of
           (vs', sm') \<Rightarrow> (v2 # vs', sm'))"

text \<open>The same for the cascades of the directional light, which get a caster list each.\<close>

fun reserveDirViews ::
  "nat \<Rightarrow> nat \<Rightarrow> 'm ShadowView list \<Rightarrow> 'a ShadowMap \<Rightarrow> 'm ShadowView list \<times> 'a ShadowMap" where
  "reserveDirViews addr j [] sm = ([], sm)"
| "reserveDirViews addr j (v # vs) sm =
     (let v1 = v\<lparr>casterListIdx := freeCasterListIdx sm\<rparr>;
          sm1 = sm\<lparr>freeCasterListIdx := freeCasterListIdx sm + 1\<rparr>;
          sm2 = (if length (shadowCasters sm1) < freeCasterListIdx sm1
                 then sm1\<lparr>shadowCasters := resize_vector (freeCasterListIdx sm1) [] (shadowCasters sm1)\<rparr>
                 else sm1);
          v2 = v1\<lparr>dynamicQueueIdx := freeQueueIdx sm2\<rparr>;
          sm3 = sm2\<lparr>freeQueueIdx := freeQueueIdx sm2 + 1\<rparr>;
          sm4 = (if length (shadowBatches sm3) < freeQueueIdx sm3
                 then sm3\<lparr>shadowBatches := resize_vector (freeQueueIdx sm3) [] (shadowBatches sm3)\<rparr>
                 else sm3);
          sm5 = sm4\<lparr>shadowViews := shadowViews sm4 @ [(addr, j)]\<rparr>
      in case reserveDirViews addr (j + 1) vs sm5 of
           (vs', sm') \<Rightarrow> (v2 # vs', sm'))"

text \<open>
  One round of the main loop "Go through lights and setup shadowcaster collection tasks".
  The state of the loop is the vector of shadow maps and the lights of the tasks set up
  so far (\<^verbatim>\<open>lightTaskIdx\<close> is their number). \<^verbatim>\<open>InitShadowViews\<close> belongs to the light
  class and is a parameter: it gives the light its array of views. The reference
  \<^verbatim>\<open>ShadowMap& shadowMap = shadowMaps[1]\<close> is bound at the top of the loop body, before
  the two \<^verbatim>\<open>continue\<close> statements: with fewer than two shadow maps every round of the
  loop reads the vector out of range. The reference is used after the allocation, where
  it denotes the second shadow map as the allocation left it.
\<close>

definition setupLight ::
  "'a AreaAllocator \<Rightarrow> ('m LightDrawable \<Rightarrow> 'm ShadowView list) \<Rightarrow> bool \<Rightarrow> 'm LightDrawable
     \<Rightarrow> 'a ShadowMap list \<times> nat list
     \<Rightarrow> fault + ('m LightDrawable \<times> ('a ShadowMap list \<times> nat list))" where
  "setupLight ops InitShadowViews shadows light st =
     (case st of (sms, taskLights) \<Rightarrow>
      case vector_at sms 1 of
        Inl e \<Rightarrow> Inl e
      | Inr bound \<Rightarrow>
        if \<not> shadows \<or> ShadowStrength light \<ge> 1 then
          Inr (SetShadowMap None IntRect_ZERO light, (sms, taskLights))
        else
          (case (if lightShadowMap light = None then AllocateShadowMap ops light sms
                 else Inr (True, light, sms)) of
             Inl e \<Rightarrow> Inl e
           | Inr (ok, light1, sms1) \<Rightarrow>
               if \<not> ok then Inr (light1, (sms1, taskLights))
               else
                 (case vector_at sms1 1 of
                    Inl e \<Rightarrow> Inl e
                  | Inr sm \<Rightarrow>
                      (let views = InitShadowViews light1;
                           casterList = freeCasterListIdx sm;
                           sm1 = sm\<lparr>freeCasterListIdx := freeCasterListIdx sm + 1\<rparr>;
                           sm2 = (if length (shadowCasters sm1) < freeCasterListIdx sm1
                                  then sm1\<lparr>shadowCasters :=
                                         resize_vector (freeCasterListIdx sm1) [] (shadowCasters sm1)\<rparr>
                                  else sm1)
                       in case reserveViews (IsStatic light1) (lightAddr light1) casterList 0
                                 views sm2 of
                            (views', sm3) \<Rightarrow>
                              Inr (light1\<lparr>ShadowViews := views'\<rparr>,
                                   (sms1[1 := sm3], taskLights @ [lightAddr light1]))))))"

text \<open>The views of the directional light, when it has a shadow map.\<close>

definition setupDirLight ::
  "('m LightDrawable \<Rightarrow> 'm ShadowView list) \<Rightarrow> 'm LightDrawable \<Rightarrow> 'a ShadowMap list
     \<Rightarrow> fault + ('m LightDrawable \<times> 'a ShadowMap list)" where
  "setupDirLight InitShadowViews d sms =
     (if lightShadowMap d \<noteq> None then
        (case vector_at sms 0 of
           Inl e \<Rightarrow> Inl e
         | Inr sm \<Rightarrow>
             (case reserveDirViews (lightAddr d) 0 (InitShadowViews d) sm of
                (views', sm') \<Rightarrow> Inr (d\<lparr>ShadowViews := views'\<rparr>, sms[0 := sm'])))
      else Inr (d, sms))"

text \<open>
  ProcessLightsWork. The light data written for the shader (\<^verbatim>\<open>lightData[i]\<close>) is float
  data and is left out.
\<close>

definition collectLights ::
  "('a, 'm) Renderer \<Rightarrow> 'm LightDrawable list \<times> 'm LightDrawable option" where
  "collectLights r =
     (case findDirLight
             (lights r @ concat (map collectedLights
                (take (length (rootLevelOctants r)) (octantResults r))))
             (dirLight r) of
        (kept, d) \<Rightarrow> (clampLights (sortLights kept), d))"

definition ProcessLightsWork ::
  "'a AreaAllocator \<Rightarrow> ('m LightDrawable \<Rightarrow> 'm ShadowView list) \<Rightarrow> ('a, 'm) Renderer
     \<Rightarrow> fault + ('a, 'm) Renderer" where
  "ProcessLightsWork ops InitShadowViews r =
     (case collectLights r of (ls, d) \<Rightarrow>
      case mapF (reallocateShadowMap ops (shadowMapsDirty r) (drawShadows r)) ls (shadowMaps r) of
        Inl e \<Rightarrow> Inl e
      | Inr (ls1, sms1) \<Rightarrow>
      case (case d of
              None \<Rightarrow> Inr (None, sms1)
            | Some dl \<Rightarrow>
                (case checkDirLight ops (shadowMapsDirty r) (drawShadows r) dl sms1 of
                   Inl e \<Rightarrow> Inl e
                 | Inr (dl', sms') \<Rightarrow> Inr (Some dl', sms'))) of
        Inl e \<Rightarrow> Inl e
      | Inr (d1, sms2) \<Rightarrow>
      case mapF (setupLight ops InitShadowViews (drawShadows r)) ls1 (sms2, []) of
        Inl e \<Rightarrow> Inl e
      | Inr (ls2, (sms3, taskLights)) \<Rightarrow>
      case (case d1 of
              None \<Rightarrow> Inr (None, sms3)
            | Some dl \<Rightarrow>
                (case setupDirLight InitShadowViews dl sms3 of
                   Inl e \<Rightarrow> Inl e
                 | Inr (dl', sms') \<Rightarrow> Inr (Some dl', sms'))) of
        Inl e \<Rightarrow> Inl e
      | Inr (d2, sms4) \<Rightarrow>
          Inr (r\<lparr>lights := ls2, dirLight := d2, shadowMaps := sms4, shadowMapsDirty := False,
                 workQueue :=
                   (let tasks = map CollectShadowCastersTask taskLights;
                        wq = fold (AddDependency ProcessShadowCastersTask) tasks (workQueue r)
                    in if length tasks > 0 then QueueTasks tasks wq else wq)\<rparr>))"

text \<open>
  The lights that ProcessLightsWork starts from, and the relation between a light before
  and after the function: the shadow map, the shadow rectangle and the views may have
  changed, the other attributes are the same.
\<close>

definition mergedLights :: "('a, 'm) Renderer \<Rightarrow> 'm LightDrawable list" where
  "mergedLights r =
     lights r @ concat (map collectedLights
       (take (length (rootLevelOctants r)) (octantResults r)))"

definition sameLight :: "'m LightDrawable \<Rightarrow> 'm LightDrawable \<Rightarrow> bool" where
  "sameLight l l' =
     (lightAddr l' = lightAddr l \<and> GetLightType l' = GetLightType l
      \<and> Distance l' = Distance l \<and> ColorAverage l' = ColorAverage l
      \<and> ShadowStrength l' = ShadowStrength l
      \<and> TotalShadowMapSize l' = TotalShadowMapSize l \<and> IsStatic l' = IsStatic l)"

definition localized :: "'m LightDrawable \<Rightarrow> bool" where
  "localized l = (GetLightType l \<noteq> LIGHT_DIRECTIONAL)"

text \<open>The addresses of the lights that have a view in one of the shadow maps.\<close>

definition viewLights :: "'a ShadowMap list \<Rightarrow> nat set" where
  "viewLights sms = (\<Union>sm \<in> set sms. fst ` set (shadowViews sm))"

section \<open>Renderer::PrepareView and the rendering of the main batches\<close>

text \<open>The three \<^verbatim>\<open>Clear\<close> functions called at the start of a frame.\<close>

definition ThreadOctantResult_Clear :: "'m ThreadOctantResult \<Rightarrow> 'm ThreadOctantResult" where
  "ThreadOctantResult_Clear res =
     res\<lparr>drawableAcc := 0, taskOctantIdx := 0, batchTaskIdx := 0,
         collectedLights := [], octants := []\<rparr>"

definition ThreadBatchResult_Clear :: "ThreadBatchResult \<Rightarrow> ThreadBatchResult" where
  "ThreadBatchResult_Clear res = res\<lparr>resultOpaqueBatches := [], resultAlphaBatches := []\<rparr>"

definition ShadowMap_Clear :: "'a AreaAllocator \<Rightarrow> 'a ShadowMap \<Rightarrow> 'a ShadowMap" where
  "ShadowMap_Clear ops sm =
     sm\<lparr>freeQueueIdx := 0, freeCasterListIdx := 0,
        allocator := Reset ops (textureWidth sm) (textureHeight sm) (allocator sm),
        shadowViews := [],
        shadowBatches := map (\<lambda>_. []) (shadowBatches sm),
        shadowCasters := map (\<lambda>_. []) (shadowCasters sm)\<rparr>"

text \<open>
  "Find the starting points for octree traversal": the root when it holds drawables, and
  its children that are not null.
\<close>

definition findRootLevelOctants :: "Octant \<Rightarrow> Octant list" where
  "findRootLevelOctants rootOctant =
     (if length (drawables rootOctant) \<noteq> 0 then [rootOctant] else [])
     @ List.map_filter (\<lambda>child. child) (children rootOctant)"

text \<open>
  PrepareView from the frame number to \<^verbatim>\<open>workQueue->QueueTasks\<close>: the stamp, the shadow
  flag, the clearing of last frame's results, the root-level octants, the counters, the
  dependency edges and the queued octant tasks.
\<close>

definition beginView ::
  "'a AreaAllocator \<Rightarrow> Octant \<Rightarrow> bool \<Rightarrow> ('a, 'm) Renderer \<Rightarrow> ('a, 'm) Renderer" where
  "beginView ops rootOctant drawShadowsArg r =
     (let roots = findRootLevelOctants rootOctant;
          tasks = map CollectOctantsTask [0..<length roots];
          wq1 = fold (\<lambda>t. AddDependency ProcessLightsTask t) tasks (workQueue r);
          wq2 = AddDependency ProcessShadowCastersTask ProcessLightsTask wq1
      in r\<lparr>frameNumber := nextFrameNumber (frameNumber r),
           drawShadows := (if length (shadowMaps r) \<noteq> 0 then drawShadowsArg else False),
           dirLight := None,
           rootLevelOctants := roots,
           opaqueBatches := [],
           alphaBatches := [],
           lights := [],
           octantResults := map ThreadOctantResult_Clear (octantResults r),
           batchResults := map ThreadBatchResult_Clear (batchResults r),
           shadowMaps := map (ShadowMap_Clear ops) (shadowMaps r),
           numPendingBatchTasks := int (length roots),
           numPendingShadowViews := [0, 0],
           workQueue := QueueTasks tasks wq2\<rparr>)"

text \<open>
  Modelled from the spec: running the queue. \<^verbatim>\<open>TryComplete\<close> runs the first queued task,
  if there is one; the work function of each task is the parameter \<open>work\<close>. The two
  waiting loops of PrepareView may not end, so they take fuel and return \<open>None\<close> when it
  runs out.
\<close>

definition TryComplete ::
  "(Task \<Rightarrow> ('a, 'm) Renderer \<Rightarrow> ('a, 'm) Renderer) \<Rightarrow> ('a, 'm) Renderer \<Rightarrow> ('a, 'm) Renderer" where
  "TryComplete work r =
     (case queuedTasks (workQueue r) of
        [] \<Rightarrow> r
      | t # ts \<Rightarrow>
          (let r1 = work t (r\<lparr>workQueue := (workQueue r)\<lparr>queuedTasks := ts\<rparr>\<rparr>)
           in r1\<lparr>workQueue := completeTask t (workQueue r1)\<rparr>))"

text \<open>\<^verbatim>\<open>while (numPendingBatchTasks.load() > 0) workQueue->TryComplete();\<close>\<close>

fun awaitBatchTasks ::
  "(Task \<Rightarrow> ('a, 'm) Renderer \<Rightarrow> ('a, 'm) Renderer) \<Rightarrow> nat \<Rightarrow> ('a, 'm) Renderer
     \<Rightarrow> ('a, 'm) Renderer option" where
  "awaitBatchTasks work fuel r =
     (if numPendingBatchTasks r > 0 then
        (case fuel of
           0 \<Rightarrow> None
         | Suc n \<Rightarrow> awaitBatchTasks work n (TryComplete work r))
      else Some r)"

text \<open>\<^verbatim>\<open>workQueue->Complete()\<close>: run until no task is queued.\<close>

fun Complete ::
  "(Task \<Rightarrow> ('a, 'm) Renderer \<Rightarrow> ('a, 'm) Renderer) \<Rightarrow> nat \<Rightarrow> ('a, 'm) Renderer
     \<Rightarrow> ('a, 'm) Renderer option" where
  "Complete work fuel r =
     (if queuedTasks (workQueue r) = [] then Some r
      else
        (case fuel of
           0 \<Rightarrow> None
         | Suc n \<Rightarrow> Complete work n (TryComplete work r)))"

text \<open>
  Modelled from the spec: \<^verbatim>\<open>BatchQueue::Sort\<close> is not among the sources. The spec
  describes it as a deterministic sort by a key (state and distance, or distance only)
  with ties broken by insertion order. The key functions are parameters.
\<close>

record BatchSortKeys =
  stateAndDistanceKey :: "Batch \<Rightarrow> nat"
  distanceKey :: "Batch \<Rightarrow> nat"

definition BatchQueue_Sort :: "(Batch \<Rightarrow> nat) \<Rightarrow> Batch list \<Rightarrow> Batch list" where
  "BatchQueue_Sort key batches = sort_key key batches"

text \<open>SortMainBatches appends the batches of each thread's result and sorts both queues.\<close>

definition SortMainBatches :: "BatchSortKeys \<Rightarrow> ('a, 'm) Renderer \<Rightarrow> ('a, 'm) Renderer" where
  "SortMainBatches keys r =
     (let opaque = fold (\<lambda>res acc. if length (resultOpaqueBatches res) \<noteq> 0
                                    then acc @ resultOpaqueBatches res else acc)
                     (batchResults r) (opaqueBatches r);
          alpha = fold (\<lambda>res acc. if length (resultAlphaBatches res) \<noteq> 0
                                   then acc @ resultAlphaBatches res else acc)
                    (batchResults r) (alphaBatches r)
      in r\<lparr>opaqueBatches := BatchQueue_Sort (stateAndDistanceKey keys) opaque,
           alphaBatches := BatchQueue_Sort (distanceKey keys) alpha\<rparr>)"

text \<open>
  PrepareView. The scene and the camera are pointers that may be null, and the octree of
  the scene may be missing: then the function returns at once. The octree is given by
  its root after \<^verbatim>\<open>octree->Update(frameNumber)\<close>. \<open>None\<close> as the result means that a
  waiting loop did not end within the fuel.
\<close>

definition PrepareView ::
  "'a AreaAllocator \<Rightarrow> (Task \<Rightarrow> ('a, 'm) Renderer \<Rightarrow> ('a, 'm) Renderer) \<Rightarrow> BatchSortKeys \<Rightarrow> nat
     \<Rightarrow> bool \<Rightarrow> bool \<Rightarrow> Octant option \<Rightarrow> bool \<Rightarrow> ('a, 'm) Renderer
     \<Rightarrow> ('a, 'm) Renderer option" where
  "PrepareView ops work keys fuel hasScene hasCamera octree drawShadowsArg r =
     (if \<not> hasScene \<or> \<not> hasCamera then Some r
      else
        (case octree of
           None \<Rightarrow> Some r
         | Some rootOctant \<Rightarrow>
             (case awaitBatchTasks work fuel (beginView ops rootOctant drawShadowsArg r) of
                None \<Rightarrow> None
              | Some r1 \<Rightarrow> Complete work fuel (SortMainBatches keys r1))))"

text \<open>
  The draw calls of RenderBatches. The constants \<^verbatim>\<open>SP_GEOMETRYBITS\<close> and
  \<^verbatim>\<open>GEOM_INSTANCED\<close> are declared in headers outside the sources and are parameters.
  The uniform, texture and state changes are not draw calls and are left out.
\<close>

datatype DrawCall =
    DrawIndexedInstanced nat nat nat
  | DrawInstanced nat nat nat
  | DrawIndexed nat
  | Draw nat

record GraphicsDefs =
  SP_GEOMETRYBITS :: "8 word"
  GEOM_INSTANCED :: "8 word"

text \<open>
  The loop over the queue. After an instanced batch the iterator is moved on by
  \<^verbatim>\<open>batch.instanceCount - 1\<close>: with a count of zero the loop would stay on the same batch,
  and a count beyond the rest of the queue would move the iterator past the end; both
  are faults in the model.
\<close>

fun RenderBatches :: "GraphicsDefs \<Rightarrow> Batch list \<Rightarrow> fault + DrawCall list" where
  "RenderBatches defs [] = Inr []"
| "RenderBatches defs (batch # rest) =
     (if \<not> programBinds batch then RenderBatches defs rest
      else if and (programBits batch) (SP_GEOMETRYBITS defs) = GEOM_INSTANCED defs then
        (if instanceCount batch = 0 \<or> instanceCount batch - 1 > length rest then Inl OutOfRange
         else
           (case RenderBatches defs (drop (instanceCount batch - 1) rest) of
              Inl e \<Rightarrow> Inl e
            | Inr calls \<Rightarrow>
                Inr ((if hasIndexBuffer batch
                      then DrawIndexedInstanced (geometry batch) (instanceStart batch)
                             (instanceCount batch)
                      else DrawInstanced (geometry batch) (instanceStart batch)
                             (instanceCount batch)) # calls)))
      else
        (case RenderBatches defs rest of
           Inl e \<Rightarrow> Inl e
         | Inr calls \<Rightarrow>
             Inr ((if hasIndexBuffer batch then DrawIndexed (geometry batch)
                   else Draw (geometry batch)) # calls)))"

definition RenderOpaque :: "GraphicsDefs \<Rightarrow> ('a, 'm) Renderer \<Rightarrow> fault + DrawCall list" where
  "RenderOpaque defs r = RenderBatches defs (opaqueBatches r)"

definition RenderAlpha :: "GraphicsDefs \<Rightarrow> ('a, 'm) Renderer \<Rightarrow> fault + DrawCall list" where
  "RenderAlpha defs r = RenderBatches defs (alphaBatches r)"

section \<open>Light culling to the cluster grid (Renderer::CullLightsToFrustumWork)\<close>

text \<open>
  The two byte arrays of the renderer: \<^verbatim>\<open>numClusterLights\<close> has one counter for each of
  the \<open>16 * 8 * 8\<close> clusters, \<^verbatim>\<open>clusterData\<close> has \<open>MAX_LIGHTS_CLUSTER\<close> bytes for each
  cluster. ProcessShadowCastersWork zeroes both before the culling tasks are queued.
\<close>

definition NUM_CLUSTERS :: nat where
  "NUM_CLUSTERS = NUM_CLUSTER_X * NUM_CLUSTER_Y * NUM_CLUSTER_Z"

definition CLUSTER_DATA_SIZE :: nat where
  "CLUSTER_DATA_SIZE = MAX_LIGHTS_CLUSTER * NUM_CLUSTER_X * NUM_CLUSTER_Y * NUM_CLUSTER_Z"

record ClusterArrays =
  numClusterLights :: "nat \<Rightarrow> 8 word"
  clusterData :: "nat \<Rightarrow> 8 word"

definition clearedClusters :: ClusterArrays where
  "clearedClusters = \<lparr>numClusterLights = (\<lambda>_. 0), clusterData = (\<lambda>_. 0)\<rparr>"

text \<open>
  A retained light as the culling task sees it. The tests are floating-point geometry;
  their outcomes are fields: \<open>outsideSlice z\<close> is
  \<^verbatim>\<open>minViewZ > clusterFrustums[idx].vertices[4].z || maxViewZ < clusterFrustums[idx].vertices[0].z\<close>
  for the first cluster of slice \<open>z\<close>, and \<open>intersectsCluster idx\<close> is the conjunction of
  the two \<^verbatim>\<open>IsInsideFast\<close> tests against cluster \<open>idx\<close>.
\<close>

record CullLight =
  cullLightType :: LightType
  outsideSlice :: "nat \<Rightarrow> bool"
  intersectsCluster :: "nat \<Rightarrow> bool"

text \<open>A loop whose body can fault stops at the first fault.\<close>

fun foldF :: "('b \<Rightarrow> 's \<Rightarrow> fault + 's) \<Rightarrow> 'b list \<Rightarrow> 's \<Rightarrow> fault + 's" where
  "foldF f [] s = Inr s"
| "foldF f (x # xs) s = (case f x s of Inl e \<Rightarrow> Inl e | Inr s' \<Rightarrow> foldF f xs s')"

text \<open>
  The body of the inner loop over \<open>x\<close>:
  \<^verbatim>\<open>if (hit) clusterData[(idx << 4) + numClusterLights[idx]++] = (unsigned char)(i + 1); ++idx;\<close>
  The counter is an \<^verbatim>\<open>unsigned char\<close> and wraps; a write outside either array is a fault.
\<close>

definition cullCluster ::
  "nat \<Rightarrow> CullLight \<Rightarrow> nat \<times> ClusterArrays \<Rightarrow> fault + (nat \<times> ClusterArrays)" where
  "cullCluster i light st =
     (case st of (idx, arrays) \<Rightarrow>
        if intersectsCluster light idx then
          (let n = numClusterLights arrays idx;
               pos = push_bit 4 idx + unat n
           in if idx < NUM_CLUSTERS \<and> pos < CLUSTER_DATA_SIZE then
                Inr (idx + 1,
                     arrays\<lparr>numClusterLights := (numClusterLights arrays)(idx := n + 1),
                            clusterData := (clusterData arrays)(pos := of_nat (i + 1))\<rparr>)
              else Inl OutOfRange)
        else Inr (idx + 1, arrays))"

text \<open>
  The two loops over \<open>y\<close> and \<open>x\<close>, which are the same for a point and for a spot light.
\<close>

definition cullSlice :: "nat \<Rightarrow> CullLight \<Rightarrow> nat \<Rightarrow> ClusterArrays \<Rightarrow> fault + ClusterArrays" where
  "cullSlice i light idx arrays =
     (case foldF (\<lambda>y. foldF (\<lambda>x. cullCluster i light) [0..<NUM_CLUSTER_X])
             [0..<NUM_CLUSTER_Y] (idx, arrays) of
        Inl e \<Rightarrow> Inl e
      | Inr st \<Rightarrow> Inr (snd st))"

text \<open>
  One round of the loop over the lights. The capacity is tested once for each light, on
  the counter of the first cluster of the slice.
\<close>

definition cullLight :: "nat \<Rightarrow> nat \<times> CullLight \<Rightarrow> ClusterArrays \<Rightarrow> fault + ClusterArrays" where
  "cullLight z il arrays =
     (case il of (i, light) \<Rightarrow>
        let idx = z * NUM_CLUSTER_X * NUM_CLUSTER_Y in
        if cullLightType light = LIGHT_POINT then
          (if outsideSlice light z
              \<or> unat (numClusterLights arrays idx) \<ge> MAX_LIGHTS_CLUSTER
           then Inr arrays
           else cullSlice i light idx arrays)
        else if cullLightType light = LIGHT_SPOT then
          (if outsideSlice light z
              \<or> unat (numClusterLights arrays idx) \<ge> MAX_LIGHTS_CLUSTER
           then Inr arrays
           else cullSlice i light idx arrays)
        else Inr arrays)"

definition CullLightsToFrustumWork ::
  "nat \<Rightarrow> CullLight list \<Rightarrow> ClusterArrays \<Rightarrow> fault + ClusterArrays" where
  "CullLightsToFrustumWork z ls arrays =
     foldF (cullLight z) (zip [0..<length ls] ls) arrays"

text \<open>
  A small point light that lies in slice 0 and intersects the cluster at \<open>x = 1\<close>,
  \<open>y = 0\<close> only (index 1), and one in slice 7 that intersects the last cluster only.
\<close>

definition lightInCluster :: "nat \<Rightarrow> CullLight" where
  "lightInCluster c =
     \<lparr>cullLightType = LIGHT_POINT,
      outsideSlice = (\<lambda>z. z \<noteq> c div (NUM_CLUSTER_X * NUM_CLUSTER_Y)),
      intersectsCluster = (\<lambda>idx. idx = c)\<rparr>"

text \<open>
  The arrays after \<open>k\<close> lights with the indices \<open>1, ..., k\<close> were recorded for cluster
  \<open>c\<close> and for no other cluster.
\<close>

definition recordLight :: "nat \<Rightarrow> nat \<Rightarrow> ClusterArrays \<Rightarrow> ClusterArrays" where
  "recordLight i c a =
     a\<lparr>numClusterLights := (numClusterLights a)(c := numClusterLights a c + 1),
       clusterData := (clusterData a)(16 * c + unat (numClusterLights a c) := of_nat (i + 1))\<rparr>"

definition recordedIn :: "nat \<Rightarrow> nat \<Rightarrow> ClusterArrays" where
  "recordedIn c k =
     \<lparr>numClusterLights = (\<lambda>idx. if idx = c then of_nat k else 0),
      clusterData = (\<lambda>pos. if 16 * c \<le> pos \<and> pos < 16 * c + k
                            then of_nat (pos - 16 * c + 1) else 0)\<rparr>"

section \<open>Concrete inputs used in the examples\<close>

text \<open>
  A shadow view whose viewport and shadow matrix are (up to the tolerance) those of the
  previous frame, a matrix comparison with the renderer's tolerance on a one-entry
  matrix, and three shadowcasters: a static one that did not move, a dynamic one that was
  updated in frame 7, and a static one that was updated in frame 7.
\<close>

definition exampleEquals :: "real \<Rightarrow> real \<Rightarrow> bool" where
  "exampleEquals a b = (\<bar>a - b\<bar> \<le> 1 / 10000)"

definition exampleView :: "real ShadowView" where
  "exampleView =
     \<lparr>viewLight = 1,
      viewport = \<lparr>left = 0, top = 0, right = 256, bottom = 256\<rparr>,
      lastViewport = \<lparr>left = 0, top = 0, right = 256, bottom = 256\<rparr>,
      shadowMatrix = 2, lastShadowMatrix = 2.00001, lastNumGeometries = 1,
      renderMode = RENDER_DYNAMIC_LIGHT,
      casterListIdx = 0, staticQueueIdx = 0, dynamicQueueIdx = 1\<rparr>"

text \<open>The same view before its first frame: nothing was rendered for it yet.\<close>

definition freshView :: "real ShadowView" where
  "freshView =
     \<lparr>viewLight = 1,
      viewport = \<lparr>left = 0, top = 0, right = 256, bottom = 256\<rparr>,
      lastViewport = IntRect_ZERO,
      shadowMatrix = 2, lastShadowMatrix = 0, lastNumGeometries = 0,
      renderMode = RENDER_DYNAMIC_LIGHT,
      casterListIdx = 0, staticQueueIdx = 0, dynamicQueueIdx = 1\<rparr>"

definition restingStaticCaster :: Caster where
  "restingStaticCaster =
     \<lparr>inView = True, staticNode = True, insideShadowFrustum = True,
      insideLightViewFrustum = True, prepareOk = True, lastUpdateFrameNumber = 6\<rparr>"

definition movedDynamicCaster :: Caster where
  "movedDynamicCaster =
     \<lparr>inView = True, staticNode = False, insideShadowFrustum = True,
      insideLightViewFrustum = True, prepareOk = True, lastUpdateFrameNumber = 7\<rparr>"

definition movedStaticCaster :: Caster where
  "movedStaticCaster =
     \<lparr>inView = False, staticNode = True, insideShadowFrustum = True,
      insideLightViewFrustum = False, prepareOk = True, lastUpdateFrameNumber = 7\<rparr>"

text \<open>
  An allocator for the examples: its state is the list of the calls made so far, and
  its answers are given by two functions.
\<close>

datatype AllocatorCall = CallReset int int | CallAllocateSpecific IntRect | CallAllocate int int

definition loggingAllocator ::
  "(IntRect \<Rightarrow> bool) \<Rightarrow> (int \<Rightarrow> int \<Rightarrow> (int \<times> int) option) \<Rightarrow> AllocatorCall list AreaAllocator" where
  "loggingAllocator specific fresh =
     \<lparr>Reset = (\<lambda>w h calls. calls @ [CallReset w h]),
      AllocateSpecific = (\<lambda>rect calls. (specific rect, calls @ [CallAllocateSpecific rect])),
      Allocate = (\<lambda>w h calls. (fresh w h, calls @ [CallAllocate w h]))\<rparr>"

text \<open>An atlas with room for rectangles of at most 8 by 8, a full one and a free one.\<close>

definition crampedAtlas :: "AllocatorCall list AreaAllocator" where
  "crampedAtlas =
     loggingAllocator (\<lambda>_. False) (\<lambda>w h. if w \<le> 8 \<and> h \<le> 8 then Some (0, 0) else None)"

definition fullAtlas :: "AllocatorCall list AreaAllocator" where
  "fullAtlas = loggingAllocator (\<lambda>_. False) (\<lambda>w h. None)"

definition freeAtlas :: "AllocatorCall list AreaAllocator" where
  "freeAtlas = loggingAllocator (\<lambda>_. True) (\<lambda>w h. Some (0, 0))"

definition exampleShadowMap :: "nat \<Rightarrow> AllocatorCall list ShadowMap" where
  "exampleShadowMap tex =
     \<lparr>freeQueueIdx = 0, freeCasterListIdx = 0, allocator = [], texture = tex,
      textureWidth = 1024, textureHeight = 1024, shadowViews = [], shadowBatches = [],
      shadowCasters = []\<rparr>"

text \<open>
  A static spot light at the given address and distance that asks for a shadow map of
  64 by 64, and had the given rectangle in the previous frame.
\<close>

definition exampleSpotLight :: "nat \<Rightarrow> real \<Rightarrow> IntRect \<Rightarrow> real LightDrawable" where
  "exampleSpotLight addr far rect =
     \<lparr>lightAddr = addr, GetLightType = LIGHT_SPOT, Distance = far, ColorAverage = 1,
      ShadowStrength = 0, TotalShadowMapSize = (64, 64), IsStatic = True,
      lightShadowMap = None, ShadowRect = rect, ShadowViews = []\<rparr>"

definition exampleRect :: IntRect where
  "exampleRect = \<lparr>left = 128, top = 0, right = 192, bottom = 64\<rparr>"

text \<open>
  A renderer in the middle of a frame, after the octant tasks have collected the given
  lights into the result of the only root-level octant, with two empty shadow maps, and
  an \<^verbatim>\<open>InitShadowViews\<close> that gives a light one view for each face or cascade.
\<close>

definition exampleRenderer ::
  "bool \<Rightarrow> real LightDrawable list \<Rightarrow> (AllocatorCall list, real) Renderer" where
  "exampleRenderer shadows collected =
     \<lparr>frameNumber = 7, drawShadows = shadows, shadowMapsDirty = False,
      rootLevelOctants = [Octant [1] []], numPendingBatchTasks = 0,
      numPendingShadowViews = [0, 0],
      octantResults = [\<lparr>drawableAcc = 0, taskOctantIdx = 0, batchTaskIdx = 0, octants = [],
                         collectedLights = collected\<rparr>],
      batchResults = [], dirLight = None, lights = [],
      shadowMaps = [exampleShadowMap 8, exampleShadowMap 9],
      opaqueBatches = [], alphaBatches = [],
      workQueue = \<lparr>queuedTasks = [], dependencies = []\<rparr>\<rparr>"

definition exampleInitShadowViews :: "real LightDrawable \<Rightarrow> real ShadowView list" where
  "exampleInitShadowViews light =
     replicate (case GetLightType light of
                  LIGHT_DIRECTIONAL \<Rightarrow> 2 | LIGHT_POINT \<Rightarrow> 6 | LIGHT_SPOT \<Rightarrow> 1)
       (exampleView\<lparr>viewLight := lightAddr light, viewport := ShadowRect light\<rparr>)"

text \<open>An octree root without drawables and with eight null children.\<close>

definition emptyRoot :: Octant where
  "emptyRoot = Octant [] (replicate 8 None)"

text \<open>
  A directional light with the given colour average, three hundred spot lights at
  growing distances, and a mixed collection: three directional lights and a spot light.
\<close>

definition exampleDirLight :: "nat \<Rightarrow> real \<Rightarrow> real LightDrawable" where
  "exampleDirLight addr average =
     \<lparr>lightAddr = addr, GetLightType = LIGHT_DIRECTIONAL, Distance = 0,
      ColorAverage = average, ShadowStrength = 0, TotalShadowMapSize = (128, 64),
      IsStatic = False, lightShadowMap = None, ShadowRect = IntRect_ZERO, ShadowViews = []\<rparr>"

definition manyLights :: "real LightDrawable list" where
  "manyLights = map (\<lambda>i. exampleSpotLight i (real i) IntRect_ZERO) [0..<300]"

definition mixedLights :: "real LightDrawable list" where
  "mixedLights =
     [exampleDirLight 1 1, exampleSpotLight 2 5 IntRect_ZERO, exampleDirLight 3 3,
      exampleDirLight 4 2]"


section \<open>Theorems\<close>

subsection \<open>Frame number stamp\<close>

lemma nextFrameNumber_nonzero: "nextFrameNumber f \<noteq> 0"
  unfolding nextFrameNumber_def Let_def by auto

lemma nextFrameNumber_succ:
  assumes "f \<noteq> 65535"
  shows "unat (nextFrameNumber f) = unat f + 1"
proof -
  have nz: "1 + f \<noteq> 0"
  proof
    assume "1 + f = 0"
    then have "f = - 1" by (simp add: add_eq_0_iff)
    then show False using assms by simp
  qed
  hence "unat (1 + f) = Suc (unat f)" by (rule unatSuc)
  thus ?thesis using nz by (simp add: nextFrameNumber_def Let_def add.commute)
qed

lemma nextFrameNumber_step:
  "nextFrameNumber f \<noteq> 0
   \<and> (f \<noteq> 65535 \<longrightarrow> f < nextFrameNumber f \<and> unat (nextFrameNumber f) = unat f + 1)
   \<and> (f = 65535 \<longrightarrow> nextFrameNumber f = 1)"
proof (intro conjI impI)
  show "nextFrameNumber f \<noteq> 0" by (rule nextFrameNumber_nonzero)
next
  assume ne: "f \<noteq> 65535"
  show "unat (nextFrameNumber f) = unat f + 1" by (rule nextFrameNumber_succ [OF ne])
  then show "f < nextFrameNumber f" by (simp add: word_less_nat_alt)
next
  assume "f = 65535"
  then show "nextFrameNumber f = 1" by (simp add: nextFrameNumber_def Let_def)
qed

text \<open>
  The stamp of the renderer: \<open>beginView\<close> writes the next stamp, and nothing after it in
  PrepareView writes the member again, as long as the work functions of the tasks leave
  it alone (in the source \<^verbatim>\<open>frameNumber\<close> is written at lines 188 to 190 only).
\<close>

lemma frameNumber_beginView:
  "frameNumber (beginView ops rootOctant drawShadowsArg r) = nextFrameNumber (frameNumber r)"
  by (simp add: beginView_def Let_def)

lemma frameNumber_TryComplete:
  assumes "\<And>t s. frameNumber (work t s) = frameNumber s"
  shows "frameNumber (TryComplete work r) = frameNumber r"
  by (simp add: TryComplete_def Let_def assms split: list.splits)

lemma frameNumber_awaitBatchTasks:
  assumes keep: "\<And>t s. frameNumber (work t s) = frameNumber s"
  shows "awaitBatchTasks work fuel r = Some r' \<Longrightarrow> frameNumber r' = frameNumber r"
proof (induction fuel arbitrary: r)
  case 0
  then show ?case by (simp split: if_splits)
next
  case (Suc n)
  show ?case
  proof (cases "numPendingBatchTasks r > 0")
    case True
    then have "awaitBatchTasks work n (TryComplete work r) = Some r'"
      using Suc.prems by simp
    from Suc.IH [OF this] show ?thesis
      by (simp add: frameNumber_TryComplete [OF keep])
  next
    case False
    then show ?thesis using Suc.prems by simp
  qed
qed

lemma frameNumber_Complete:
  assumes keep: "\<And>t s. frameNumber (work t s) = frameNumber s"
  shows "Complete work fuel r = Some r' \<Longrightarrow> frameNumber r' = frameNumber r"
proof (induction fuel arbitrary: r)
  case 0
  then show ?case by (simp split: if_splits)
next
  case (Suc n)
  show ?case
  proof (cases "queuedTasks (workQueue r) = []")
    case False
    then have "Complete work n (TryComplete work r) = Some r'"
      using Suc.prems by simp
    from Suc.IH [OF this] show ?thesis
      by (simp add: frameNumber_TryComplete [OF keep])
  next
    case True
    then show ?thesis using Suc.prems by simp
  qed
qed

lemma frameNumber_SortMainBatches: "frameNumber (SortMainBatches keys r) = frameNumber r"
  by (simp add: SortMainBatches_def Let_def)

lemma frameNumber_PrepareView:
  assumes keep: "\<And>t s. frameNumber (work t s) = frameNumber s"
    and run: "PrepareView ops work keys fuel True True (Some rootOctant) drawShadowsArg r = Some r'"
  shows "frameNumber r' = nextFrameNumber (frameNumber r)"
proof -
  from run obtain r1 where
    1: "awaitBatchTasks work fuel (beginView ops rootOctant drawShadowsArg r) = Some r1"
    and 2: "Complete work fuel (SortMainBatches keys r1) = Some r'"
    by (auto simp: PrepareView_def split: option.splits)
  have "frameNumber r' = frameNumber (SortMainBatches keys r1)"
    by (rule frameNumber_Complete [OF keep 2])
  also have "\<dots> = frameNumber (beginView ops rootOctant drawShadowsArg r)"
    using frameNumber_awaitBatchTasks [OF keep 1] by (simp add: frameNumber_SortMainBatches)
  finally show ?thesis by (simp add: frameNumber_beginView)
qed

text \<open>
  Claim C7, as stated, fails at the wraparound: a PrepareView call on a renderer whose
  stamp is 65535 leaves the stamp 1, which is not greater than 65535.
\<close>

theorem PrepareView_stamp_wrap_counterexample:
  "map_option frameNumber
     (PrepareView fullAtlas (\<lambda>t s. s) \<lparr>stateAndDistanceKey = geometry, distanceKey = geometry\<rparr> 0
        True True (Some emptyRoot) True ((exampleRenderer True [])\<lparr>frameNumber := 65535\<rparr>))
     = Some 1
   \<and> \<not> ((65535 :: 16 word) < 1)"
  by (simp add: PrepareView_def beginView_def findRootLevelOctants_def emptyRoot_def
      List.map_filter_def exampleRenderer_def Let_def QueueTasks_def AddDependency_def
      SortMainBatches_def nextFrameNumber_def)

text \<open>
  Claim C7, amended. The stamp that \<open>beginView\<close> writes (lines 188 to 190) is the next
  stamp of the old one. A PrepareView call with a scene, a camera and an octree that
  returns leaves that stamp in the renderer: it is never zero; from a stamp below 65535
  it is greater by exactly one, so the stamp is strictly increasing there; from 65535 it
  is 1, so zero is skipped and the stamp decreases. A call without a scene, a camera or
  an octree leaves the renderer, and so the stamp, as it was. The tasks that the work
  queue runs do not write the stamp (it is written in the constructor and at lines 188
  and 190 only), which is the hypothesis \<open>keep\<close>.
\<close>

theorem PrepareView_frameNumber:
  assumes keep: "\<And>t s. frameNumber (work t s) = frameNumber s"
    and run: "PrepareView ops work keys fuel hasScene hasCamera octree drawShadowsArg r = Some r'"
  shows "frameNumber (beginView ops rootOctant drawShadowsArg r) = nextFrameNumber (frameNumber r)
    \<and> (hasScene \<and> hasCamera \<and> octree \<noteq> None \<longrightarrow>
          frameNumber r' = nextFrameNumber (frameNumber r)
        \<and> frameNumber r' \<noteq> 0
        \<and> (frameNumber r \<noteq> 65535 \<longrightarrow>
              frameNumber r < frameNumber r' \<and> unat (frameNumber r') = unat (frameNumber r) + 1)
        \<and> (frameNumber r = 65535 \<longrightarrow> frameNumber r' = 1))
    \<and> (\<not> (hasScene \<and> hasCamera \<and> octree \<noteq> None) \<longrightarrow> r' = r)"
proof (intro conjI impI)
  show "frameNumber (beginView ops rootOctant drawShadowsArg r) = nextFrameNumber (frameNumber r)"
    by (rule frameNumber_beginView)
next
  assume "\<not> (hasScene \<and> hasCamera \<and> octree \<noteq> None)"
  then show "r' = r" using run by (cases octree) (auto simp: PrepareView_def split: if_splits)
next
  assume a: "hasScene \<and> hasCamera \<and> octree \<noteq> None"
  then obtain root0 where o: "octree = Some root0" by auto
  from a o run
  have run': "PrepareView ops work keys fuel True True (Some root0) drawShadowsArg r = Some r'"
    by simp
  have eq: "frameNumber r' = nextFrameNumber (frameNumber r)"
    by (rule frameNumber_PrepareView [OF keep run'])
  note step = nextFrameNumber_step [of "frameNumber r"]
  show "frameNumber r' = nextFrameNumber (frameNumber r)" by (rule eq)
  show "frameNumber r' \<noteq> 0" using eq step by simp
  show "frameNumber r < frameNumber r'" if "frameNumber r \<noteq> 65535"
    using that eq step by simp
  show "unat (frameNumber r') = unat (frameNumber r) + 1" if "frameNumber r \<noteq> 65535"
    using that eq step by simp
  show "frameNumber r' = 1" if "frameNumber r = 65535"
    using that eq step by simp
qed

theorem PrepareView_frameNumber_witness:
  "PrepareView fullAtlas (\<lambda>t s. s) \<lparr>stateAndDistanceKey = geometry, distanceKey = geometry\<rparr> 0
        True True (Some emptyRoot) True (exampleRenderer True [])
     = Some (SortMainBatches \<lparr>stateAndDistanceKey = geometry, distanceKey = geometry\<rparr>
               (beginView fullAtlas emptyRoot True (exampleRenderer True [])))
   \<and> frameNumber (exampleRenderer True []) = 7
   \<and> frameNumber (SortMainBatches \<lparr>stateAndDistanceKey = geometry, distanceKey = geometry\<rparr>
               (beginView fullAtlas emptyRoot True (exampleRenderer True []))) = 8
   \<and> frameNumber (beginView fullAtlas emptyRoot True (exampleRenderer True [])) = 8
   \<and> PrepareView fullAtlas (\<lambda>t s. s) \<lparr>stateAndDistanceKey = geometry, distanceKey = geometry\<rparr> 0
        True False (Some emptyRoot) True (exampleRenderer True [])
     = Some (exampleRenderer True [])"
proof -
  let ?keys = "\<lparr>stateAndDistanceKey = geometry, distanceKey = geometry\<rparr>"
  let ?r = "exampleRenderer True [] :: (AllocatorCall list, real) Renderer"
  let ?r' = "SortMainBatches ?keys (beginView fullAtlas emptyRoot True ?r)"
  have run: "PrepareView fullAtlas (\<lambda>t s. s) ?keys 0 True True (Some emptyRoot) True ?r = Some ?r'"
    by (simp add: PrepareView_def beginView_def findRootLevelOctants_def emptyRoot_def
        List.map_filter_def exampleRenderer_def Let_def QueueTasks_def AddDependency_def
        SortMainBatches_def)
  have skip: "PrepareView fullAtlas (\<lambda>t s. s) ?keys 0 True False (Some emptyRoot) True ?r = Some ?r"
    by (simp add: PrepareView_def)
  have f: "frameNumber ?r = 7" by (simp add: exampleRenderer_def)
  have n: "nextFrameNumber 7 = 8" by (simp add: nextFrameNumber_def Let_def)
  from PrepareView_frameNumber [of "\<lambda>t s. s" fullAtlas ?keys 0 True True "Some emptyRoot" True
      ?r ?r' emptyRoot, OF _ run]
  have "frameNumber ?r' = 8" "frameNumber (beginView fullAtlas emptyRoot True ?r) = 8"
    by (simp_all add: f n)
  then show ?thesis using run skip f by simp
qed

subsection \<open>Render mode of a static light's shadow view\<close>

lemma fold_collectCaster:
  "fold (collectCaster f lt d) cs t =
     \<lparr>totalShadowCasters = totalShadowCasters t + length (acceptedCasters lt d cs),
      staticShadowCasters =
        staticShadowCasters t + length (filter staticNode (acceptedCasters lt d cs)),
      dynamicCastersMoved = (dynamicCastersMoved t \<or>
          (\<exists>c \<in> set (acceptedCasters lt d cs). \<not> staticNode c \<and> lastUpdateFrameNumber c = f)),
      staticCastersMoved = (staticCastersMoved t \<or>
          (\<exists>c \<in> set (acceptedCasters lt d cs). staticNode c \<and> lastUpdateFrameNumber c = f))\<rparr>"
proof (induction cs arbitrary: t)
  case Nil
  then show ?case by (simp add: acceptedCasters_def)
next
  case (Cons c cs)
  show ?case
    unfolding fold_simps Cons.IH
    by (auto simp: collectCaster_def casterAccepted_def acceptedCasters_def Let_def)
qed

lemma CollectShadowBatches_view_mode:
  assumes nz: "viewport view \<noteq> IntRect_ZERO"
    and nd: "lightType \<noteq> LIGHT_DIRECTIONAL"
    and st: "lightIsStatic"
  shows "renderMode (CollectShadowBatches_view matEquals frame lightType lightIsStatic
                       casters view) =
      (if lastViewport view \<noteq> viewport view
          \<or> \<not> matEquals (lastShadowMatrix view) (shadowMatrix view)
       then RENDER_STATIC_LIGHT_STORE_STATIC
       else if \<exists>c \<in> set (acceptedCasters lightType False casters).
                 staticNode c \<and> lastUpdateFrameNumber c = frame
       then RENDER_STATIC_LIGHT_STORE_STATIC
       else if (\<exists>c \<in> set (acceptedCasters lightType False casters).
                 \<not> staticNode c \<and> lastUpdateFrameNumber c = frame)
               \<or> lastNumGeometries view \<noteq> length (acceptedCasters lightType False casters)
       then (if \<exists>c \<in> set (acceptedCasters lightType False casters). staticNode c
             then RENDER_STATIC_LIGHT_RESTORE_STATIC else RENDER_DYNAMIC_LIGHT)
       else RENDER_STATIC_LIGHT_CACHED)"
  using nz nd st
  by (auto simp: CollectShadowBatches_view_def Let_def fold_collectCaster chooseRenderMode_def
      noCasters_def filter_empty_conv)

text \<open>
  What the view holds after the frame (lines 1378 to 1385): a CACHED view takes over the
  stored matrix, any other view stores its viewport, its matrix and the number of its
  casters. Either way the three \<open>last\<close> fields then hold this frame's values.
\<close>

lemma CollectShadowBatches_view_stored:
  assumes nz: "viewport view \<noteq> IntRect_ZERO"
    and nd: "lightType \<noteq> LIGHT_DIRECTIONAL"
    and st: "lightIsStatic"
  shows "viewport (CollectShadowBatches_view matEquals frame lightType lightIsStatic
                     casters view) = viewport view"
    and "shadowMatrix (CollectShadowBatches_view matEquals frame lightType lightIsStatic
                         casters view) =
          (if renderMode (CollectShadowBatches_view matEquals frame lightType lightIsStatic
                            casters view) = RENDER_STATIC_LIGHT_CACHED
           then lastShadowMatrix view else shadowMatrix view)"
    and "lastViewport (CollectShadowBatches_view matEquals frame lightType lightIsStatic
                         casters view) = viewport view"
    and "lastShadowMatrix (CollectShadowBatches_view matEquals frame lightType lightIsStatic
                             casters view) =
         shadowMatrix (CollectShadowBatches_view matEquals frame lightType lightIsStatic
                         casters view)"
    and "lastNumGeometries (CollectShadowBatches_view matEquals frame lightType lightIsStatic
                              casters view) = length (acceptedCasters lightType False casters)"
  using nz nd st
  by (auto simp: CollectShadowBatches_view_def Let_def fold_collectCaster chooseRenderMode_def
      noCasters_def split: if_splits)

text \<open>
  Claim C2. For a view with a non-zero viewport of a static light that is not
  directional, the render mode after CollectShadowBatchesWork is: STORE_STATIC when the
  viewport or the shadow matrix differs from the stored one; else STORE_STATIC when a
  static caster that passed the culling tests was updated this frame; else, when a dynamic
  caster was updated this frame or the number of casters differs from the stored one,
  RESTORE_STATIC if there is a static caster and DYNAMIC_LIGHT if there is none; else
  CACHED. In the CACHED case the view's shadow matrix becomes the stored one, in every
  other case it stays the computed one.

  The stored values are last frame's: the call leaves in \<open>lastViewport\<close>,
  \<open>lastShadowMatrix\<close> and \<open>lastNumGeometries\<close> the viewport and the shadow matrix the view
  ends the frame with and the number of casters of this frame. So when the view comes
  back in the next frame with the viewport \<open>viewport2\<close>, the computed matrix \<open>matrix2\<close> and
  the casters \<open>casters2\<close>, the mode is STORE_STATIC when \<open>viewport2\<close> is not this frame's
  viewport or \<open>matrix2\<close> is not (up to the tolerance) this frame's matrix, and so on down
  to CACHED, where the shadow matrix is this frame's, taken over verbatim.
\<close>

theorem static_light_render_mode:
  assumes nz: "viewport view \<noteq> IntRect_ZERO"
    and nd: "lightType \<noteq> LIGHT_DIRECTIONAL"
    and st: "lightIsStatic"
  shows "renderMode (CollectShadowBatches_view matEquals frame lightType lightIsStatic
                       casters view) =
      (if lastViewport view \<noteq> viewport view
          \<or> \<not> matEquals (lastShadowMatrix view) (shadowMatrix view)
       then RENDER_STATIC_LIGHT_STORE_STATIC
       else if \<exists>c \<in> set (acceptedCasters lightType False casters).
                 staticNode c \<and> lastUpdateFrameNumber c = frame
       then RENDER_STATIC_LIGHT_STORE_STATIC
       else if (\<exists>c \<in> set (acceptedCasters lightType False casters).
                 \<not> staticNode c \<and> lastUpdateFrameNumber c = frame)
               \<or> lastNumGeometries view \<noteq> length (acceptedCasters lightType False casters)
       then (if \<exists>c \<in> set (acceptedCasters lightType False casters). staticNode c
             then RENDER_STATIC_LIGHT_RESTORE_STATIC else RENDER_DYNAMIC_LIGHT)
       else RENDER_STATIC_LIGHT_CACHED)
    \<and> (renderMode (CollectShadowBatches_view matEquals frame lightType lightIsStatic
                      casters view) = RENDER_STATIC_LIGHT_CACHED \<longrightarrow>
        shadowMatrix (CollectShadowBatches_view matEquals frame lightType lightIsStatic
                        casters view) = lastShadowMatrix view)
    \<and> (renderMode (CollectShadowBatches_view matEquals frame lightType lightIsStatic
                      casters view) \<noteq> RENDER_STATIC_LIGHT_CACHED \<longrightarrow>
        shadowMatrix (CollectShadowBatches_view matEquals frame lightType lightIsStatic
                        casters view) = shadowMatrix view)
    \<and> viewport (CollectShadowBatches_view matEquals frame lightType lightIsStatic
                  casters view) = viewport view
    \<and> lastViewport (CollectShadowBatches_view matEquals frame lightType lightIsStatic
                      casters view) = viewport view
    \<and> lastShadowMatrix (CollectShadowBatches_view matEquals frame lightType lightIsStatic
                          casters view)
        = shadowMatrix (CollectShadowBatches_view matEquals frame lightType lightIsStatic
                          casters view)
    \<and> lastNumGeometries (CollectShadowBatches_view matEquals frame lightType lightIsStatic
                           casters view) = length (acceptedCasters lightType False casters)
    \<and> (viewport2 \<noteq> IntRect_ZERO \<longrightarrow>
        renderMode (CollectShadowBatches_view matEquals frame2 lightType lightIsStatic casters2
           ((CollectShadowBatches_view matEquals frame lightType lightIsStatic casters view)
              \<lparr>viewport := viewport2, shadowMatrix := matrix2\<rparr>)) =
          (if viewport2 \<noteq> viewport view
              \<or> \<not> matEquals (shadowMatrix (CollectShadowBatches_view matEquals frame lightType
                                 lightIsStatic casters view)) matrix2
           then RENDER_STATIC_LIGHT_STORE_STATIC
           else if \<exists>c \<in> set (acceptedCasters lightType False casters2).
                     staticNode c \<and> lastUpdateFrameNumber c = frame2
           then RENDER_STATIC_LIGHT_STORE_STATIC
           else if (\<exists>c \<in> set (acceptedCasters lightType False casters2).
                     \<not> staticNode c \<and> lastUpdateFrameNumber c = frame2)
                   \<or> length (acceptedCasters lightType False casters)
                       \<noteq> length (acceptedCasters lightType False casters2)
           then (if \<exists>c \<in> set (acceptedCasters lightType False casters2). staticNode c
                 then RENDER_STATIC_LIGHT_RESTORE_STATIC else RENDER_DYNAMIC_LIGHT)
           else RENDER_STATIC_LIGHT_CACHED)
      \<and> (renderMode (CollectShadowBatches_view matEquals frame2 lightType lightIsStatic casters2
           ((CollectShadowBatches_view matEquals frame lightType lightIsStatic casters view)
              \<lparr>viewport := viewport2, shadowMatrix := matrix2\<rparr>)) = RENDER_STATIC_LIGHT_CACHED \<longrightarrow>
         shadowMatrix (CollectShadowBatches_view matEquals frame2 lightType lightIsStatic casters2
           ((CollectShadowBatches_view matEquals frame lightType lightIsStatic casters view)
              \<lparr>viewport := viewport2, shadowMatrix := matrix2\<rparr>))
          = shadowMatrix (CollectShadowBatches_view matEquals frame lightType lightIsStatic
                            casters view)))"
proof -
  define v' where
    "v' = CollectShadowBatches_view matEquals frame lightType lightIsStatic casters view"
  define v2 where "v2 = v'\<lparr>viewport := viewport2, shadowMatrix := matrix2\<rparr>"
  note mode = CollectShadowBatches_view_mode [OF nz nd st, of matEquals frame casters,
      folded v'_def]
  note stored = CollectShadowBatches_view_stored [OF nz nd st, of matEquals frame casters,
      folded v'_def]
  have cached: "shadowMatrix v' = lastShadowMatrix view"
    if "renderMode v' = RENDER_STATIC_LIGHT_CACHED"
    using stored(2) that by simp
  have rendered: "shadowMatrix v' = shadowMatrix view"
    if "renderMode v' \<noteq> RENDER_STATIC_LIGHT_CACHED"
    using stored(2) that by simp
  have fields: "viewport v2 = viewport2" "shadowMatrix v2 = matrix2"
    "lastViewport v2 = viewport view" "lastShadowMatrix v2 = shadowMatrix v'"
    "lastNumGeometries v2 = length (acceptedCasters lightType False casters)"
    using stored by (simp_all add: v2_def)
  have next_mode: "renderMode (CollectShadowBatches_view matEquals frame2 lightType
        lightIsStatic casters2 v2) =
          (if viewport2 \<noteq> viewport view \<or> \<not> matEquals (shadowMatrix v') matrix2
           then RENDER_STATIC_LIGHT_STORE_STATIC
           else if \<exists>c \<in> set (acceptedCasters lightType False casters2).
                     staticNode c \<and> lastUpdateFrameNumber c = frame2
           then RENDER_STATIC_LIGHT_STORE_STATIC
           else if (\<exists>c \<in> set (acceptedCasters lightType False casters2).
                     \<not> staticNode c \<and> lastUpdateFrameNumber c = frame2)
                   \<or> length (acceptedCasters lightType False casters)
                       \<noteq> length (acceptedCasters lightType False casters2)
           then (if \<exists>c \<in> set (acceptedCasters lightType False casters2). staticNode c
                 then RENDER_STATIC_LIGHT_RESTORE_STATIC else RENDER_DYNAMIC_LIGHT)
           else RENDER_STATIC_LIGHT_CACHED)"
    if nz2: "viewport2 \<noteq> IntRect_ZERO"
  proof -
    have "viewport v2 \<noteq> IntRect_ZERO" using nz2 by (simp add: fields)
    from CollectShadowBatches_view_mode [OF this nd st, of matEquals frame2 casters2]
    show ?thesis unfolding fields by (simp add: eq_commute [of "viewport view" viewport2])
  qed
  have next_cached: "shadowMatrix (CollectShadowBatches_view matEquals frame2 lightType
        lightIsStatic casters2 v2) = shadowMatrix v'"
    if nz2: "viewport2 \<noteq> IntRect_ZERO"
      and c: "renderMode (CollectShadowBatches_view matEquals frame2 lightType
        lightIsStatic casters2 v2) = RENDER_STATIC_LIGHT_CACHED"
  proof -
    have "viewport v2 \<noteq> IntRect_ZERO" using nz2 by (simp add: fields)
    from CollectShadowBatches_view_stored(2) [OF this nd st, of matEquals frame2 casters2] c
    show ?thesis by (simp add: fields)
  qed
  show ?thesis
    unfolding v'_def [symmetric] v2_def [symmetric]
    using mode cached rendered stored(1,3,4,5) next_mode next_cached by blast
qed

theorem static_light_render_mode_witness:
  "viewport exampleView \<noteq> IntRect_ZERO \<and> LIGHT_SPOT \<noteq> LIGHT_DIRECTIONAL
   \<and> renderMode (CollectShadowBatches_view exampleEquals 7 LIGHT_SPOT True
        [restingStaticCaster] exampleView) = RENDER_STATIC_LIGHT_CACHED
   \<and> shadowMatrix (CollectShadowBatches_view exampleEquals 7 LIGHT_SPOT True
        [restingStaticCaster] exampleView) = 2.00001
   \<and> renderMode (CollectShadowBatches_view exampleEquals 7 LIGHT_SPOT True
        [restingStaticCaster, movedDynamicCaster] exampleView)
       = RENDER_STATIC_LIGHT_RESTORE_STATIC
   \<and> renderMode (CollectShadowBatches_view exampleEquals 7 LIGHT_SPOT True
        [movedDynamicCaster] exampleView) = RENDER_DYNAMIC_LIGHT
   \<and> renderMode (CollectShadowBatches_view exampleEquals 7 LIGHT_SPOT True
        [restingStaticCaster, movedStaticCaster] exampleView)
       = RENDER_STATIC_LIGHT_STORE_STATIC
   \<and> viewport freshView \<noteq> IntRect_ZERO
   \<and> renderMode (CollectShadowBatches_view exampleEquals 7 LIGHT_SPOT True
        [restingStaticCaster] freshView) = RENDER_STATIC_LIGHT_STORE_STATIC
   \<and> lastViewport (CollectShadowBatches_view exampleEquals 7 LIGHT_SPOT True
        [restingStaticCaster] freshView) = viewport freshView
   \<and> lastShadowMatrix (CollectShadowBatches_view exampleEquals 7 LIGHT_SPOT True
        [restingStaticCaster] freshView) = 2
   \<and> lastNumGeometries (CollectShadowBatches_view exampleEquals 7 LIGHT_SPOT True
        [restingStaticCaster] freshView) = 1
   \<and> renderMode (CollectShadowBatches_view exampleEquals 8 LIGHT_SPOT True
        [restingStaticCaster]
        ((CollectShadowBatches_view exampleEquals 7 LIGHT_SPOT True
            [restingStaticCaster] freshView)
           \<lparr>viewport := viewport freshView, shadowMatrix := 2.00001\<rparr>))
       = RENDER_STATIC_LIGHT_CACHED
   \<and> shadowMatrix (CollectShadowBatches_view exampleEquals 8 LIGHT_SPOT True
        [restingStaticCaster]
        ((CollectShadowBatches_view exampleEquals 7 LIGHT_SPOT True
            [restingStaticCaster] freshView)
           \<lparr>viewport := viewport freshView, shadowMatrix := 2.00001\<rparr>)) = 2
   \<and> renderMode (CollectShadowBatches_view exampleEquals 8 LIGHT_SPOT True
        [restingStaticCaster]
        ((CollectShadowBatches_view exampleEquals 7 LIGHT_SPOT True
            [restingStaticCaster] freshView)
           \<lparr>viewport := viewport freshView, shadowMatrix := 3\<rparr>))
       = RENDER_STATIC_LIGHT_STORE_STATIC"
proof -
  have nz: "viewport exampleView \<noteq> IntRect_ZERO" "viewport freshView \<noteq> IntRect_ZERO"
    and nd: "LIGHT_SPOT \<noteq> LIGHT_DIRECTIONAL"
    by (simp_all add: exampleView_def freshView_def IntRect_ZERO_def)
  note defs = acceptedCasters_def casterAccepted_def IntRect_ZERO_def exampleView_def
    freshView_def exampleEquals_def restingStaticCaster_def movedDynamicCaster_def
    movedStaticCaster_def
  have a: "renderMode (CollectShadowBatches_view exampleEquals 7 LIGHT_SPOT True
        [restingStaticCaster] exampleView) = RENDER_STATIC_LIGHT_CACHED
   \<and> shadowMatrix (CollectShadowBatches_view exampleEquals 7 LIGHT_SPOT True
        [restingStaticCaster] exampleView) = 2.00001"
    using static_light_render_mode [of exampleView LIGHT_SPOT True exampleEquals 7
          "[restingStaticCaster]"]
    by (simp add: defs)
  have b: "renderMode (CollectShadowBatches_view exampleEquals 7 LIGHT_SPOT True
        [restingStaticCaster, movedDynamicCaster] exampleView)
       = RENDER_STATIC_LIGHT_RESTORE_STATIC"
    using static_light_render_mode [of exampleView LIGHT_SPOT True exampleEquals 7
          "[restingStaticCaster, movedDynamicCaster]"]
    by (simp add: defs)
  have c: "renderMode (CollectShadowBatches_view exampleEquals 7 LIGHT_SPOT True
        [movedDynamicCaster] exampleView) = RENDER_DYNAMIC_LIGHT"
    using static_light_render_mode [of exampleView LIGHT_SPOT True exampleEquals 7
          "[movedDynamicCaster]"]
    by (simp add: defs)
  have d: "renderMode (CollectShadowBatches_view exampleEquals 7 LIGHT_SPOT True
        [restingStaticCaster, movedStaticCaster] exampleView)
       = RENDER_STATIC_LIGHT_STORE_STATIC"
    using static_light_render_mode [of exampleView LIGHT_SPOT True exampleEquals 7
          "[restingStaticCaster, movedStaticCaster]"]
    by (simp add: defs)
  note two = static_light_render_mode [OF nz(2) nd, of True exampleEquals 7
      "[restingStaticCaster]" "viewport freshView" 8 "[restingStaticCaster]"]
  have store: "renderMode (CollectShadowBatches_view exampleEquals 7 LIGHT_SPOT True
        [restingStaticCaster] freshView) = RENDER_STATIC_LIGHT_STORE_STATIC"
    using two [of 3] by (simp add: defs)
  have m: "shadowMatrix (CollectShadowBatches_view exampleEquals 7 LIGHT_SPOT True
        [restingStaticCaster] freshView) = 2"
    using two [of 3] store by (simp add: freshView_def)
  have e: "lastViewport (CollectShadowBatches_view exampleEquals 7 LIGHT_SPOT True
        [restingStaticCaster] freshView) = viewport freshView
   \<and> lastShadowMatrix (CollectShadowBatches_view exampleEquals 7 LIGHT_SPOT True
        [restingStaticCaster] freshView) = 2
   \<and> lastNumGeometries (CollectShadowBatches_view exampleEquals 7 LIGHT_SPOT True
        [restingStaticCaster] freshView) = 1"
    using two [of 3] m by (simp add: acceptedCasters_def casterAccepted_def
        restingStaticCaster_def)
  have f: "renderMode (CollectShadowBatches_view exampleEquals 8 LIGHT_SPOT True
        [restingStaticCaster]
        ((CollectShadowBatches_view exampleEquals 7 LIGHT_SPOT True
            [restingStaticCaster] freshView)
           \<lparr>viewport := viewport freshView, shadowMatrix := 2.00001\<rparr>))
       = RENDER_STATIC_LIGHT_CACHED"
    using two [of "2.00001"] nz(2) unfolding m
    by (simp add: acceptedCasters_def casterAccepted_def restingStaticCaster_def
        exampleEquals_def)
  have g: "shadowMatrix (CollectShadowBatches_view exampleEquals 8 LIGHT_SPOT True
        [restingStaticCaster]
        ((CollectShadowBatches_view exampleEquals 7 LIGHT_SPOT True
            [restingStaticCaster] freshView)
           \<lparr>viewport := viewport freshView, shadowMatrix := 2.00001\<rparr>)) = 2"
    using two [of "2.00001"] nz(2) f unfolding m by simp
  have h: "renderMode (CollectShadowBatches_view exampleEquals 8 LIGHT_SPOT True
        [restingStaticCaster]
        ((CollectShadowBatches_view exampleEquals 7 LIGHT_SPOT True
            [restingStaticCaster] freshView)
           \<lparr>viewport := viewport freshView, shadowMatrix := 3\<rparr>))
       = RENDER_STATIC_LIGHT_STORE_STATIC"
    using two [of 3] nz(2) unfolding m by (simp add: exampleEquals_def)
  show ?thesis using nz nd a b c d store e f g h by simp
qed

subsection \<open>Shadow map texture accessor\<close>

text \<open>
  Claim C10. ShadowMapTexture never reads the vector of shadow maps out of range: it
  returns null for an index at or beyond the number of shadow maps (so always when there
  are none) and the texture of the shadow map at the index otherwise.
\<close>

theorem ShadowMapTexture_in_range:
  "ShadowMapTexture sms index =
     Inr (if index < length sms then Some (texture (sms ! index)) else None)"
  by (simp add: ShadowMapTexture_def vector_at_def)


subsection \<open>Light culling: the capacity of a cluster\<close>

lemma foldF_append:
  "foldF f (xs @ ys) s = (case foldF f xs s of Inl e \<Rightarrow> Inl e | Inr s' \<Rightarrow> foldF f ys s')"
  by (induction xs arbitrary: s) (auto split: sum.splits)

lemma cullRow_miss:
  "c < idx \<or> idx + length xs \<le> c \<Longrightarrow>
   foldF (\<lambda>x. cullCluster i (lightInCluster c)) xs (idx, a) = Inr (idx + length xs, a)"
  by (induction xs arbitrary: idx) (auto simp: cullCluster_def lightInCluster_def)

lemma cullRow_hit:
  "idx \<le> c \<Longrightarrow> c < idx + length xs \<Longrightarrow> c < NUM_CLUSTERS \<Longrightarrow>
   16 * c + unat (numClusterLights a c) < CLUSTER_DATA_SIZE \<Longrightarrow>
   foldF (\<lambda>x. cullCluster i (lightInCluster c)) xs (idx, a)
     = Inr (idx + length xs, recordLight i c a)"
proof (induction xs arbitrary: idx)
  case Nil
  then show ?case by simp
next
  case (Cons x xs)
  show ?case
  proof (cases "idx = c")
    case True
    have step: "cullCluster i (lightInCluster c) (idx, a) = Inr (idx + 1, recordLight i c a)"
      using True Cons.prems
      by (simp add: cullCluster_def lightInCluster_def recordLight_def Let_def
          push_bit_eq_mult mult.commute)
    show ?thesis
      using cullRow_miss [of c "idx + 1" xs i "recordLight i c a"] True step
      by simp
  next
    case False
    have step: "cullCluster i (lightInCluster c) (idx, a) = Inr (idx + 1, a)"
      using False by (simp add: cullCluster_def lightInCluster_def)
    show ?thesis
      using Cons.IH [of "idx + 1"] Cons.prems False by (simp add: step)
  qed
qed

lemma cullRow_fault:
  "idx \<le> c \<Longrightarrow> c < idx + length xs \<Longrightarrow>
   CLUSTER_DATA_SIZE \<le> 16 * c + unat (numClusterLights a c) \<Longrightarrow>
   foldF (\<lambda>x. cullCluster i (lightInCluster c)) xs (idx, a) = Inl OutOfRange"
proof (induction xs arbitrary: idx)
  case Nil
  then show ?case by simp
next
  case (Cons x xs)
  show ?case
  proof (cases "idx = c")
    case True
    then show ?thesis
      using Cons.prems
      by (simp add: cullCluster_def lightInCluster_def Let_def push_bit_eq_mult mult.commute)
  next
    case False
    have step: "cullCluster i (lightInCluster c) (idx, a) = Inr (idx + 1, a)"
      using False by (simp add: cullCluster_def lightInCluster_def)
    show ?thesis
      using Cons.IH [of "idx + 1"] Cons.prems False by (simp add: step)
  qed
qed

lemma cullRows_miss:
  "c < idx \<or> idx + 16 * length ys \<le> c \<Longrightarrow>
   foldF (\<lambda>y. foldF (\<lambda>x. cullCluster i (lightInCluster c)) [0..<NUM_CLUSTER_X]) ys (idx, a)
     = Inr (idx + 16 * length ys, a)"
proof (induction ys arbitrary: idx)
  case Nil
  then show ?case by simp
next
  case (Cons y ys)
  have row: "foldF (\<lambda>x. cullCluster i (lightInCluster c)) [0..<NUM_CLUSTER_X] (idx, a)
               = Inr (idx + 16, a)"
    using cullRow_miss [of c idx "[0..<NUM_CLUSTER_X]" i a] Cons.prems
    by (auto simp: NUM_CLUSTER_X_def)
  show ?case
    using Cons.IH [of "idx + 16"] Cons.prems by (auto simp: row)
qed

lemma cullRows_hit:
  "idx \<le> c \<Longrightarrow> c < idx + 16 * length ys \<Longrightarrow> c < NUM_CLUSTERS \<Longrightarrow>
   16 * c + unat (numClusterLights a c) < CLUSTER_DATA_SIZE \<Longrightarrow>
   foldF (\<lambda>y. foldF (\<lambda>x. cullCluster i (lightInCluster c)) [0..<NUM_CLUSTER_X]) ys (idx, a)
     = Inr (idx + 16 * length ys, recordLight i c a)"
proof (induction ys arbitrary: idx)
  case Nil
  then show ?case by simp
next
  case (Cons y ys)
  show ?case
  proof (cases "c < idx + 16")
    case True
    have row: "foldF (\<lambda>x. cullCluster i (lightInCluster c)) [0..<NUM_CLUSTER_X] (idx, a)
                 = Inr (idx + 16, recordLight i c a)"
      using cullRow_hit [of idx c "[0..<NUM_CLUSTER_X]" a i] Cons.prems True
      by (simp add: NUM_CLUSTER_X_def)
    show ?thesis
      using cullRows_miss [of c "idx + 16" ys i "recordLight i c a"] True
      by (simp add: row)
  next
    case False
    have row: "foldF (\<lambda>x. cullCluster i (lightInCluster c)) [0..<NUM_CLUSTER_X] (idx, a)
                 = Inr (idx + 16, a)"
      using cullRow_miss [of c idx "[0..<NUM_CLUSTER_X]" i a] False
      by (simp add: NUM_CLUSTER_X_def)
    show ?thesis
      using Cons.IH [of "idx + 16"] Cons.prems False by (simp add: row)
  qed
qed

lemma cullRows_fault:
  "idx \<le> c \<Longrightarrow> c < idx + 16 * length ys \<Longrightarrow>
   CLUSTER_DATA_SIZE \<le> 16 * c + unat (numClusterLights a c) \<Longrightarrow>
   foldF (\<lambda>y. foldF (\<lambda>x. cullCluster i (lightInCluster c)) [0..<NUM_CLUSTER_X]) ys (idx, a)
     = Inl OutOfRange"
proof (induction ys arbitrary: idx)
  case Nil
  then show ?case by simp
next
  case (Cons y ys)
  show ?case
  proof (cases "c < idx + 16")
    case True
    have row: "foldF (\<lambda>x. cullCluster i (lightInCluster c)) [0..<NUM_CLUSTER_X] (idx, a)
                 = Inl OutOfRange"
      using cullRow_fault [of idx c "[0..<NUM_CLUSTER_X]" a i] Cons.prems True
      by (simp add: NUM_CLUSTER_X_def)
    show ?thesis by (simp add: row)
  next
    case False
    have row: "foldF (\<lambda>x. cullCluster i (lightInCluster c)) [0..<NUM_CLUSTER_X] (idx, a)
                 = Inr (idx + 16, a)"
      using cullRow_miss [of c idx "[0..<NUM_CLUSTER_X]" i a] False
      by (simp add: NUM_CLUSTER_X_def)
    show ?thesis
      using Cons.IH [of "idx + 16"] Cons.prems False by (simp add: row)
  qed
qed

text \<open>
  A light that intersects a single cluster \<open>c\<close>, which is not the first of its slice, is
  recorded for \<open>c\<close> whatever the counter of \<open>c\<close> is, as long as the counter of the first
  cluster of the slice is below the capacity.
\<close>

lemma cullLight_single:
  assumes "c div 128 = z" and "c \<noteq> z * 128" and "c < NUM_CLUSTERS"
    and "unat (numClusterLights a (z * 128)) < 16"
    and "16 * c + unat (numClusterLights a c) < CLUSTER_DATA_SIZE"
  shows "cullLight z (i, lightInCluster c) a = Inr (recordLight i c a)"
proof -
  have in_slice: "z * 128 \<le> c" "c < z * 128 + 16 * length [0..<NUM_CLUSTER_Y]"
    using assms(1) by (auto simp: NUM_CLUSTER_Y_def)
  have "cullSlice i (lightInCluster c) (z * 128) a = Inr (recordLight i c a)"
    using cullRows_hit [OF in_slice assms(3) assms(5), of i]
    by (simp add: cullSlice_def)
  moreover have "cullLightType (lightInCluster c) = LIGHT_POINT"
    and "\<not> outsideSlice (lightInCluster c) z"
    using assms(1) by (simp_all add: lightInCluster_def NUM_CLUSTER_X_def NUM_CLUSTER_Y_def)
  ultimately show ?thesis
    using assms(4)
    by (simp add: cullLight_def Let_def NUM_CLUSTER_X_def NUM_CLUSTER_Y_def
        MAX_LIGHTS_CLUSTER_def mult.assoc)
qed

lemma cullLight_fault:
  assumes "c div 128 = z" and "c \<noteq> z * 128"
    and "unat (numClusterLights a (z * 128)) < 16"
    and "CLUSTER_DATA_SIZE \<le> 16 * c + unat (numClusterLights a c)"
  shows "cullLight z (i, lightInCluster c) a = Inl OutOfRange"
proof -
  have in_slice: "z * 128 \<le> c" "c < z * 128 + 16 * length [0..<NUM_CLUSTER_Y]"
    using assms(1) by (auto simp: NUM_CLUSTER_Y_def)
  have "cullSlice i (lightInCluster c) (z * 128) a = Inl OutOfRange"
    using cullRows_fault [OF in_slice assms(4), of i]
    by (simp add: cullSlice_def)
  moreover have "cullLightType (lightInCluster c) = LIGHT_POINT"
    and "\<not> outsideSlice (lightInCluster c) z"
    using assms(1) by (simp_all add: lightInCluster_def NUM_CLUSTER_X_def NUM_CLUSTER_Y_def)
  ultimately show ?thesis
    using assms(3)
    by (simp add: cullLight_def Let_def NUM_CLUSTER_X_def NUM_CLUSTER_Y_def
        MAX_LIGHTS_CLUSTER_def mult.assoc)
qed

lemma recordLight_recordedIn:
  assumes "k < 255"
  shows "recordLight k c (recordedIn c k) = recordedIn c (Suc k)"
proof -
  have u: "unat (of_nat k :: 8 word) = k"
    using assms by (simp add: unat_of_nat)
  show ?thesis
    unfolding recordLight_def recordedIn_def
    by (auto simp: u fun_eq_iff)
qed

lemma cullLights_same_cluster:
  assumes "c div 128 = z" and "c \<noteq> z * 128" and "c < NUM_CLUSTERS"
  shows "m + k \<le> 255 \<Longrightarrow> 16 * c + m + k \<le> CLUSTER_DATA_SIZE \<Longrightarrow>
         foldF (cullLight z) (zip [m..<m + k] (replicate k (lightInCluster c))) (recordedIn c m)
           = Inr (recordedIn c (m + k))"
proof (induction k arbitrary: m)
  case 0
  then show ?case by simp
next
  case (Suc k)
  have u: "unat (of_nat m :: 8 word) = m"
    using Suc.prems by (simp add: unat_of_nat)
  have first: "cullLight z (m, lightInCluster c) (recordedIn c m) = Inr (recordedIn c (Suc m))"
    using cullLight_single [OF assms(1,2,3), of "recordedIn c m" m] Suc.prems assms(2)
      recordLight_recordedIn [of m c]
    by (simp add: recordedIn_def u)
  have z: "zip [m..<m + Suc k] (replicate (Suc k) (lightInCluster c))
            = (m, lightInCluster c) # zip [Suc m..<Suc m + k] (replicate k (lightInCluster c))"
    using upt_conv_Cons [of m "m + Suc k"] by (simp del: upt_Suc)
  show ?case
    unfolding z
    using Suc.IH [of "Suc m"] Suc.prems by (simp add: first del: upt_Suc)
qed

lemma clearedClusters_recordedIn: "clearedClusters = recordedIn c 0"
  by (simp add: clearedClusters_def recordedIn_def fun_eq_iff)

text \<open>
  Claim C1 fails on the code. Seventeen point lights that all intersect the cluster with
  index 1 (\<open>x = 1\<close>, \<open>y = 0\<close>, \<open>z = 0\<close>) and no other cluster: after the task of slice 0 the
  counter of cluster 1 is 17, above \<open>MAX_LIGHTS_CLUSTER\<close>, and the index of the
  seventeenth light is in the first slot of cluster 2, which that light does not
  intersect.
\<close>

theorem CullLights_capacity_exceeded:
  "\<exists>a. CullLightsToFrustumWork 0 (replicate 17 (lightInCluster 1)) clearedClusters = Inr a
     \<and> unat (numClusterLights a 1) = 17
     \<and> MAX_LIGHTS_CLUSTER < unat (numClusterLights a 1)
     \<and> \<not> intersectsCluster (lightInCluster 1) 2
     \<and> clusterData a (MAX_LIGHTS_CLUSTER * 2) = 17"
proof -
  have "CullLightsToFrustumWork 0 (replicate 17 (lightInCluster 1)) clearedClusters
          = Inr (recordedIn 1 17)"
    unfolding CullLightsToFrustumWork_def clearedClusters_recordedIn [of 1]
    using cullLights_same_cluster [of 1 0 0 17]
    by (simp add: NUM_CLUSTERS_def NUM_CLUSTER_X_def NUM_CLUSTER_Y_def NUM_CLUSTER_Z_def
        CLUSTER_DATA_SIZE_def MAX_LIGHTS_CLUSTER_def del: upt_Suc)
  then show ?thesis
    by (simp add: recordedIn_def MAX_LIGHTS_CLUSTER_def lightInCluster_def)
qed

text \<open>
  For the last cluster of the grid the seventeenth write is beyond the end of
  \<^verbatim>\<open>clusterData\<close>.
\<close>

lemma CullLights_write_past_end:
  "CullLightsToFrustumWork 7 (replicate 17 (lightInCluster 1023)) clearedClusters
     = Inl OutOfRange"
proof -
  have sixteen: "foldF (cullLight 7) (zip [0..<0 + 16] (replicate 16 (lightInCluster 1023)))
                   (recordedIn 1023 0) = Inr (recordedIn 1023 (0 + 16))"
    by (rule cullLights_same_cluster)
       (simp_all add: NUM_CLUSTERS_def NUM_CLUSTER_X_def NUM_CLUSTER_Y_def NUM_CLUSTER_Z_def
          CLUSTER_DATA_SIZE_def MAX_LIGHTS_CLUSTER_def)
  have last: "cullLight 7 (16, lightInCluster 1023) (recordedIn 1023 16) = Inl OutOfRange"
    by (rule cullLight_fault)
       (simp_all add: recordedIn_def NUM_CLUSTERS_def NUM_CLUSTER_X_def NUM_CLUSTER_Y_def
          NUM_CLUSTER_Z_def CLUSTER_DATA_SIZE_def MAX_LIGHTS_CLUSTER_def)
  have split: "zip [0..<length (replicate 17 (lightInCluster 1023))]
                 (replicate 17 (lightInCluster 1023))
     = zip [0..<0 + 16] (replicate 16 (lightInCluster 1023)) @ [(16, lightInCluster 1023)]"
    by (simp add: numeral_eq_Suc)
  show ?thesis
    unfolding CullLightsToFrustumWork_def clearedClusters_recordedIn [of 1023] split
      foldF_append sixteen
    by (simp add: last)
qed

subsection \<open>Shadow map allocation\<close>

lemma allocateRetry_three:
  assumes "Allocate ops w h a0 = (None, a1)"
    and "Allocate ops (w sdiv 2) (h sdiv 2) a1 = (None, a2)"
    and "Allocate ops (w sdiv 2 sdiv 2) (h sdiv 2 sdiv 2) a2 = (None, a3)"
  shows "allocateRetry ops 3 (w, h) a0 = (None, a3)"
  using assms by (simp add: numeral_3_eq_3)

lemma AllocateShadowMap_in_fails:
  assumes "\<not> reclaimed ops light sm"
    and "TotalShadowMapSize light = (w, h)"
    and "Allocate ops w h (afterReclaim ops light sm) = (None, a1)"
    and "Allocate ops (w sdiv 2) (h sdiv 2) a1 = (None, a2)"
    and "Allocate ops (w sdiv 2 sdiv 2) (h sdiv 2 sdiv 2) a2 = (None, a3)"
  shows "AllocateShadowMap_in ops light sm =
           (False, light\<lparr>lightShadowMap := None, ShadowRect := IntRect_ZERO\<rparr>, sm\<lparr>allocator := a3\<rparr>)"
  using assms allocateRetry_three [of ops w h "afterReclaim ops light sm" a1 a2 a3]
  by (auto simp: AllocateShadowMap_in_def reclaimed_def afterReclaim_def Let_def SetShadowMap_def)

lemma AllocateShadowMap_True:
  assumes "AllocateShadowMap ops light sms = Inr (True, l1, sms1)"
  shows "lightShadowMap l1 \<noteq> None"
  using assms
  by (auto simp: AllocateShadowMap_def AllocateShadowMap_in_def Let_def SetShadowMap_def
      split: sum.splits if_splits prod.splits option.splits)

lemma fault_OutOfRange: "(e :: fault) = OutOfRange"
  by (cases e)

lemma setupLight_short:
  "length sms < 2 \<Longrightarrow> setupLight ops init shadows light (sms, tasks) = Inl OutOfRange"
  by (simp add: setupLight_def vector_at_def)

lemma setupLight_bound:
  assumes "setupLight ops init shadows light (sms, tasks) = Inr res"
  shows "vector_at sms 1 = Inr (sms ! 1)"
proof (cases "length sms < 2")
  case True
  from setupLight_short [OF this, of ops init shadows light tasks] assms show ?thesis by simp
next
  case False
  then show ?thesis by (simp add: vector_at_def)
qed

lemma AllocateShadowMap_localized:
  assumes "GetLightType light \<noteq> LIGHT_DIRECTIONAL"
  shows "AllocateShadowMap ops light sms = Inr (ok, l1, sms1) \<Longrightarrow>
           1 < length sms \<and> length sms1 = length sms"
    and "AllocateShadowMap ops light sms = Inl e \<Longrightarrow> \<not> 1 < length sms"
  using assms
  by (auto simp: AllocateShadowMap_def Let_def vector_at_def split: if_splits prod.splits)

lemma AllocateShadowMap_length:
  "AllocateShadowMap ops light sms = Inr (ok, l1, sms1) \<Longrightarrow> length sms1 = length sms"
  by (auto simp: AllocateShadowMap_def Let_def vector_at_def split: if_splits prod.splits)

lemma AllocateShadowMap_long:
  "2 \<le> length sms \<Longrightarrow> \<exists>res. AllocateShadowMap ops light sms = Inr res"
  by (auto simp: AllocateShadowMap_def Let_def vector_at_def split: if_splits prod.splits)

lemma AllocateShadowMap_sameLight_early:
  "AllocateShadowMap ops light sms = Inr (ok, l1, sms1) \<Longrightarrow>
   ShadowStrength l1 = ShadowStrength light"
  by (auto simp: AllocateShadowMap_def AllocateShadowMap_in_def Let_def SetShadowMap_def
      split: sum.splits if_splits prod.splits option.splits)

text \<open>
  Claim C3, as stated, fails on the code in two places. The loop makes three attempts in
  all (at the requested size, at half and at a quarter of it), not one attempt and then
  up to three retries: on an atlas with room for 8 by 8 only, a request of 64 by 64
  fails after the calls for 64, 32 and 16, where the procedure of the claim would go on
  to 8 by 8 and succeed. And the allocation is tried again in the same frame:
  ProcessLightsWork calls AllocateShadowMap for a spot light in the pre-step and, after
  the failure, once more in its main loop, as the log of the allocator shows.
\<close>

theorem AllocateShadowMap_attempts_counterexample:
  "fst (AllocateShadowMap_in crampedAtlas (exampleSpotLight 1 5 IntRect_ZERO)
          (exampleShadowMap 9)) = False
   \<and> allocator (snd (snd (AllocateShadowMap_in crampedAtlas (exampleSpotLight 1 5 IntRect_ZERO)
          (exampleShadowMap 9))))
      = [CallAllocate 64 64, CallAllocate 32 32, CallAllocate 16 16]
   \<and> fst (freshAllocation_spec crampedAtlas (64, 64) [])
      = Some \<lparr>left = 0, top = 0, right = 8, bottom = 8\<rparr>
   \<and> snd (freshAllocation_spec crampedAtlas (64, 64) [])
      = [CallAllocate 64 64, CallAllocate 32 32, CallAllocate 16 16, CallAllocate 8 8]
   \<and> map_sum id (\<lambda>r. (map allocator (shadowMaps r), map lightShadowMap (lights r)))
        (ProcessLightsWork fullAtlas exampleInitShadowViews
           (exampleRenderer True [exampleSpotLight 1 5 exampleRect]))
      = Inr ([[], [CallAllocateSpecific exampleRect,
                   CallAllocate 64 64, CallAllocate 32 32, CallAllocate 16 16,
                   CallAllocate 64 64, CallAllocate 32 32, CallAllocate 16 16]], [None])"
  by (simp add: ProcessLightsWork_def collectLights_def exampleRenderer_def exampleSpotLight_def
      sortLights_def clampLights_def MAX_LIGHTS_def reallocateShadowMap_def exampleRect_def
      IntRect_ZERO_def AllocateShadowMap_def AllocateShadowMap_in_def vector_at_def
      exampleShadowMap_def fullAtlas_def crampedAtlas_def loggingAllocator_def Width_def
      Height_def Let_def numeral_3_eq_3 SetShadowMap_def setupLight_def freshAllocation_spec_def)

text \<open>
  Claim C3, amended. When AllocateShadowMap cannot re-claim the light's previous
  rectangle and the three fresh attempts (at the requested size, at half and at a
  quarter of it, halved by integer division) all fail, it clears the light's shadow map,
  returns false and leaves the allocator as the third attempt left it. When this
  happens in the main loop of ProcessLightsWork (which first binds the second shadow
  map), the light gets no shadow views and no shadowcaster task. When it happens in the pre-step, the main loop of the same call
  tries the allocation for the light once more, and sets the light up for shadows if
  that attempt succeeds.
\<close>

theorem AllocateShadowMap_failure:
  assumes sm: "vector_at sms (if GetLightType light = LIGHT_DIRECTIONAL then 0 else 1) = Inr sm"
    and req: "TotalShadowMapSize light = (w, h)"
    and nr: "\<not> reclaimed ops light sm"
    and f1: "Allocate ops w h (afterReclaim ops light sm) = (None, a1)"
    and f2: "Allocate ops (w sdiv 2) (h sdiv 2) a1 = (None, a2)"
    and f3: "Allocate ops (w sdiv 2 sdiv 2) (h sdiv 2 sdiv 2) a2 = (None, a3)"
  shows "AllocateShadowMap ops light sms =
           Inr (False, SetShadowMap None IntRect_ZERO light,
                sms[(if GetLightType light = LIGHT_DIRECTIONAL then 0 else 1) := sm\<lparr>allocator := a3\<rparr>])
    \<and> (2 \<le> length sms
        \<and> shadows \<and> ShadowStrength light < 1 \<and> lightShadowMap light = None \<longrightarrow>
         setupLight ops InitShadowViews shadows light (sms, tasks) =
           Inr (SetShadowMap None IntRect_ZERO light,
                (sms[(if GetLightType light = LIGHT_DIRECTIONAL then 0 else 1) := sm\<lparr>allocator := a3\<rparr>],
                 tasks)))
    \<and> (shadows \<and> ShadowStrength light < 1 \<and> ShadowRect light \<noteq> IntRect_ZERO \<longrightarrow>
         reallocateShadowMap ops False shadows light sms =
           Inr (SetShadowMap None IntRect_ZERO light,
                sms[(if GetLightType light = LIGHT_DIRECTIONAL then 0 else 1) := sm\<lparr>allocator := a3\<rparr>]))
    \<and> ((GetLightType light \<noteq> LIGHT_DIRECTIONAL \<or> 2 \<le> length sms')
        \<and> shadows \<and> ShadowStrength light < 1 \<and> ShadowRect light \<noteq> IntRect_ZERO \<longrightarrow>
         setupLight ops InitShadowViews shadows (SetShadowMap None IntRect_ZERO light) (sms', tasks) =
             (case AllocateShadowMap ops (SetShadowMap None IntRect_ZERO light) sms' of
                Inl e \<Rightarrow> Inl e
              | Inr (ok, l2, sms2) \<Rightarrow>
                  if ok then setupLight ops InitShadowViews shadows l2 (sms2, tasks)
                  else Inr (l2, (sms2, tasks))))"
proof -
  let ?i = "if GetLightType light = LIGHT_DIRECTIONAL then 0 else (1::nat)"
  let ?l1 = "SetShadowMap None IntRect_ZERO light"
  have main: "AllocateShadowMap ops light sms = Inr (False, ?l1, sms[?i := sm\<lparr>allocator := a3\<rparr>])"
    using sm AllocateShadowMap_in_fails [OF nr req f1 f2 f3]
    by (simp add: AllocateShadowMap_def Let_def SetShadowMap_def)
  have loop: "setupLight ops InitShadowViews shadows light (sms, tasks) =
           Inr (?l1, (sms[?i := sm\<lparr>allocator := a3\<rparr>], tasks))"
    if "2 \<le> length sms" "shadows" "ShadowStrength light < 1"
      "lightShadowMap light = None"
    using that main by (simp add: setupLight_def vector_at_def)
  have pre: "reallocateShadowMap ops False shadows light sms = Inr (?l1, sms[?i := sm\<lparr>allocator := a3\<rparr>])"
    if "shadows" "ShadowStrength light < 1" "ShadowRect light \<noteq> IntRect_ZERO"
    using that main by (simp add: reallocateShadowMap_def)
  have again: "setupLight ops InitShadowViews shadows ?l1 (sms', tasks) =
             (case AllocateShadowMap ops ?l1 sms' of
                Inl e \<Rightarrow> Inl e
              | Inr (ok, l2, sms2) \<Rightarrow>
                  if ok then setupLight ops InitShadowViews shadows l2 (sms2, tasks)
                  else Inr (l2, (sms2, tasks)))"
    if loc: "GetLightType light \<noteq> LIGHT_DIRECTIONAL \<or> 2 \<le> length sms'"
      and sh: "shadows" "ShadowStrength light < 1"
  proof (cases "AllocateShadowMap ops ?l1 sms'")
    case (Inl e)
    have "\<not> 2 \<le> length sms'"
      using AllocateShadowMap_long [of sms' ops ?l1] Inl by auto
    then have short: "length sms' < 2" and loc1: "GetLightType ?l1 \<noteq> LIGHT_DIRECTIONAL"
      using loc by (simp_all add: SetShadowMap_def)
    from setupLight_short [OF short] show ?thesis
      using Inl fault_OutOfRange [of e] by simp
  next
    case (Inr res)
    obtain ok l2 sms2 where res: "res = (ok, l2, sms2)" by (cases res) auto
    have same: "length sms2 = length sms'"
      by (rule AllocateShadowMap_length [OF Inr [unfolded res]])
    have "1 < length sms'"
    proof (cases "GetLightType light = LIGHT_DIRECTIONAL")
      case True
      then show ?thesis using loc by simp
    next
      case False
      then have "GetLightType ?l1 \<noteq> LIGHT_DIRECTIONAL" by (simp add: SetShadowMap_def)
      from AllocateShadowMap_localized(1) [OF this Inr [unfolded res]] show ?thesis by simp
    qed
    then have b1: "vector_at sms' 1 = Inr (sms' ! 1)" and b2: "vector_at sms2 1 = Inr (sms2 ! 1)"
      using same by (simp_all add: vector_at_def)
    show ?thesis
    proof (cases ok)
      case True
      have "lightShadowMap l2 \<noteq> None"
        using AllocateShadowMap_True [of ops ?l1 sms' l2 sms2] Inr res True by simp
      then obtain t where s2: "lightShadowMap l2 = Some t" by auto
      have st: "ShadowStrength l2 = ShadowStrength light"
        using AllocateShadowMap_sameLight_early [of ops ?l1 sms' ok l2 sms2] Inr res
        by (simp add: SetShadowMap_def)
      show ?thesis
        using sh Inr res True s2 st b1 b2
        by (simp add: setupLight_def SetShadowMap_def)
    next
      case False
      then show ?thesis using sh Inr res b1 by (simp add: setupLight_def SetShadowMap_def)
    qed
  qed
  show ?thesis
    using main loop pre again by blast
qed

theorem AllocateShadowMap_failure_witness:
  "vector_at [exampleShadowMap 8, exampleShadowMap 9] 1 = Inr (exampleShadowMap 9)
   \<and> \<not> reclaimed fullAtlas (exampleSpotLight 1 5 exampleRect) (exampleShadowMap 9)
   \<and> ShadowRect (exampleSpotLight 1 5 exampleRect) \<noteq> IntRect_ZERO
   \<and> AllocateShadowMap fullAtlas (exampleSpotLight 1 5 exampleRect)
        [exampleShadowMap 8, exampleShadowMap 9]
      = Inr (False, exampleSpotLight 1 5 IntRect_ZERO,
             [exampleShadowMap 8,
              (exampleShadowMap 9)\<lparr>allocator :=
                 [CallAllocateSpecific exampleRect, CallAllocate 64 64, CallAllocate 32 32,
                  CallAllocate 16 16]\<rparr>])
   \<and> reallocateShadowMap fullAtlas False True (exampleSpotLight 1 5 exampleRect)
        [exampleShadowMap 8, exampleShadowMap 9]
      = Inr (exampleSpotLight 1 5 IntRect_ZERO,
             [exampleShadowMap 8,
              (exampleShadowMap 9)\<lparr>allocator :=
                 [CallAllocateSpecific exampleRect, CallAllocate 64 64, CallAllocate 32 32,
                  CallAllocate 16 16]\<rparr>])
   \<and> setupLight fullAtlas exampleInitShadowViews True (exampleSpotLight 1 5 exampleRect)
        ([exampleShadowMap 8, exampleShadowMap 9], [])
      = Inr (exampleSpotLight 1 5 IntRect_ZERO,
             ([exampleShadowMap 8,
               (exampleShadowMap 9)\<lparr>allocator :=
                 [CallAllocateSpecific exampleRect, CallAllocate 64 64, CallAllocate 32 32,
                  CallAllocate 16 16]\<rparr>], []))"
  using AllocateShadowMap_failure [of "[exampleShadowMap 8, exampleShadowMap 9]"
      "exampleSpotLight 1 5 exampleRect" "exampleShadowMap 9" 64 64 fullAtlas
      "[CallAllocateSpecific exampleRect, CallAllocate 64 64]"
      "[CallAllocateSpecific exampleRect, CallAllocate 64 64, CallAllocate 32 32]"
      "[CallAllocateSpecific exampleRect, CallAllocate 64 64, CallAllocate 32 32, CallAllocate 16 16]"
      True exampleInitShadowViews "[]" "[]"]
  by (simp add: vector_at_def exampleSpotLight_def reclaimed_def afterReclaim_def fullAtlas_def
      loggingAllocator_def exampleShadowMap_def exampleRect_def Width_def Height_def
      SetShadowMap_def IntRect_ZERO_def)

text \<open>
  Claim C4. When the light's previous rectangle has exactly the requested width and
  height, the first call that AllocateShadowMap makes to the allocator is
  \<^verbatim>\<open>AllocateSpecific\<close> for that rectangle. When it succeeds the function returns true,
  the light keeps the identical rectangle, and no other call is made to the allocator;
  when it fails the fresh attempts start from the allocator as that call left it.
\<close>

theorem AllocateShadowMap_reclaims:
  assumes sm: "vector_at sms (if GetLightType light = LIGHT_DIRECTIONAL then 0 else 1) = Inr sm"
    and w: "fst (TotalShadowMapSize light) = Width (ShadowRect light)"
    and h: "snd (TotalShadowMapSize light) = Height (ShadowRect light)"
  shows "(AllocateSpecific ops (ShadowRect light) (allocator sm) = (True, a') \<longrightarrow>
            AllocateShadowMap ops light sms =
              Inr (True, light\<lparr>lightShadowMap := Some (texture sm)\<rparr>,
                   sms[(if GetLightType light = LIGHT_DIRECTIONAL then 0 else 1)
                         := sm\<lparr>allocator := a'\<rparr>]))
     \<and> (AllocateSpecific ops (ShadowRect light) (allocator sm) = (False, a') \<longrightarrow>
            AllocateShadowMap ops light sms =
              (case allocateRetry ops 3 (TotalShadowMapSize light) a' of
                 (Some rect, a'') \<Rightarrow>
                   Inr (True, SetShadowMap (Some (texture sm)) rect light,
                        sms[(if GetLightType light = LIGHT_DIRECTIONAL then 0 else 1)
                              := sm\<lparr>allocator := a''\<rparr>])
               | (None, a'') \<Rightarrow>
                   Inr (False, SetShadowMap None IntRect_ZERO light,
                        sms[(if GetLightType light = LIGHT_DIRECTIONAL then 0 else 1)
                              := sm\<lparr>allocator := a''\<rparr>])))"
  using sm w h
  by (auto simp: AllocateShadowMap_def AllocateShadowMap_in_def Let_def SetShadowMap_def
      split: prod.splits option.splits)

theorem AllocateShadowMap_reclaims_witness:
  "vector_at (map (ShadowMap_Clear freeAtlas) [exampleShadowMap 8, exampleShadowMap 9]) 1
     = Inr (ShadowMap_Clear freeAtlas (exampleShadowMap 9))
   \<and> TotalShadowMapSize (exampleSpotLight 1 5 exampleRect) = (Width exampleRect, Height exampleRect)
   \<and> AllocateShadowMap freeAtlas (exampleSpotLight 1 5 exampleRect)
        (map (ShadowMap_Clear freeAtlas) [exampleShadowMap 8, exampleShadowMap 9])
      = Inr (True, (exampleSpotLight 1 5 exampleRect)\<lparr>lightShadowMap := Some 9\<rparr>,
             [ShadowMap_Clear freeAtlas (exampleShadowMap 8),
              (exampleShadowMap 9)\<lparr>allocator :=
                 [CallReset 1024 1024, CallAllocateSpecific exampleRect]\<rparr>])
   \<and> AllocateShadowMap fullAtlas (exampleSpotLight 1 5 exampleRect)
        [exampleShadowMap 8, exampleShadowMap 9]
      = Inr (False, exampleSpotLight 1 5 IntRect_ZERO,
             [exampleShadowMap 8,
              (exampleShadowMap 9)\<lparr>allocator :=
                 [CallAllocateSpecific exampleRect, CallAllocate 64 64, CallAllocate 32 32,
                  CallAllocate 16 16]\<rparr>])"
  using AllocateShadowMap_reclaims [of
      "map (ShadowMap_Clear freeAtlas) [exampleShadowMap 8, exampleShadowMap 9]"
      "exampleSpotLight 1 5 exampleRect" "ShadowMap_Clear freeAtlas (exampleShadowMap 9)"
      freeAtlas "[CallReset 1024 1024, CallAllocateSpecific exampleRect]"]
    AllocateShadowMap_reclaims [of "[exampleShadowMap 8, exampleShadowMap 9]"
      "exampleSpotLight 1 5 exampleRect" "exampleShadowMap 9"
      fullAtlas "[CallAllocateSpecific exampleRect]"]
  by (simp add: vector_at_def exampleSpotLight_def freeAtlas_def fullAtlas_def
      loggingAllocator_def exampleShadowMap_def exampleRect_def Width_def Height_def
      ShadowMap_Clear_def SetShadowMap_def IntRect_ZERO_def numeral_3_eq_3)

subsection \<open>The empty scene\<close>

text \<open>
  Claim C8. For an octree root without drawables and without children, and a work queue
  with no task left from before, PrepareView queues no task and returns, whatever the
  work functions and the fuel are: no task runs. Afterwards the opaque and the alpha
  queue are empty, no task is queued, and RenderOpaque and RenderAlpha issue no draw
  call.
\<close>

theorem empty_scene:
  assumes "drawables rootOctant = []" and "\<forall>c \<in> set (children rootOctant). c = None"
    and "queuedTasks (workQueue r) = []"
  shows "PrepareView ops work keys fuel True True (Some rootOctant) flag r
           = Some (SortMainBatches keys (beginView ops rootOctant flag r))
     \<and> opaqueBatches (SortMainBatches keys (beginView ops rootOctant flag r)) = []
     \<and> alphaBatches (SortMainBatches keys (beginView ops rootOctant flag r)) = []
     \<and> queuedTasks (workQueue (SortMainBatches keys (beginView ops rootOctant flag r))) = []
     \<and> RenderOpaque defs (SortMainBatches keys (beginView ops rootOctant flag r)) = Inr []
     \<and> RenderAlpha defs (SortMainBatches keys (beginView ops rootOctant flag r)) = Inr []"
proof -
  have mf: "List.map_filter (\<lambda>child. child) (children rootOctant) = []"
    using assms(2) by (auto simp: List.map_filter_def filter_empty_conv)
  have roots: "findRootLevelOctants rootOctant = []"
    using assms(1) mf by (simp add: findRootLevelOctants_def)
  have f1: "fold (\<lambda>res acc. if resultOpaqueBatches res \<noteq> [] then acc @ resultOpaqueBatches res else acc)
               (map ThreadBatchResult_Clear xs) acc = acc" for xs acc
    by (induction xs) (auto simp: ThreadBatchResult_Clear_def)
  have f2: "fold (\<lambda>res acc. if resultAlphaBatches res \<noteq> [] then acc @ resultAlphaBatches res else acc)
               (map ThreadBatchResult_Clear xs) acc = acc" for xs acc
    by (induction xs) (auto simp: ThreadBatchResult_Clear_def)
  show ?thesis
    using assms(3)
    by (simp add: PrepareView_def beginView_def roots SortMainBatches_def Let_def f1 f2
        BatchQueue_Sort_def QueueTasks_def AddDependency_def RenderOpaque_def RenderAlpha_def)
qed

theorem empty_scene_witness:
  "drawables emptyRoot = [] \<and> set (children emptyRoot) = {None}
   \<and> PrepareView fullAtlas (\<lambda>t r. r) \<lparr>stateAndDistanceKey = geometry, distanceKey = geometry\<rparr> 0
        True True (Some emptyRoot) True (exampleRenderer True [exampleSpotLight 1 5 exampleRect])
      = Some (SortMainBatches \<lparr>stateAndDistanceKey = geometry, distanceKey = geometry\<rparr>
          (beginView fullAtlas emptyRoot True (exampleRenderer True [exampleSpotLight 1 5 exampleRect])))
   \<and> RenderOpaque \<lparr>SP_GEOMETRYBITS = 3, GEOM_INSTANCED = 1\<rparr> (SortMainBatches \<lparr>stateAndDistanceKey = geometry, distanceKey = geometry\<rparr>
          (beginView fullAtlas emptyRoot True (exampleRenderer True [exampleSpotLight 1 5 exampleRect]))) = Inr []"
  using empty_scene [of emptyRoot "exampleRenderer True [exampleSpotLight 1 5 exampleRect]"
     fullAtlas "\<lambda>t r. r" "\<lparr>stateAndDistanceKey = geometry, distanceKey = geometry\<rparr>" 0 True
     "\<lparr>SP_GEOMETRYBITS = 3, GEOM_INSTANCED = 1\<rparr>"]
  by (simp add: emptyRoot_def exampleRenderer_def)

subsection \<open>ProcessLightsWork: the retained lights and the directional light\<close>

lemma findDirLight_kept: "fst (findDirLight ls d) = filter localized ls"
proof (induction ls arbitrary: d)
  case Nil
  then show ?case by simp
next
  case (Cons l ls)
  show ?case
    using Cons.IH [of d]
      Cons.IH [of "case d of None \<Rightarrow> Some l
               | Some cur \<Rightarrow> if ColorAverage l > ColorAverage cur then Some l else Some cur"]
    by (cases "findDirLight ls d") (simp add: localized_def)
qed

lemma findDirLight_dominant:
  "(case snd (findDirLight ls d) of
      None \<Rightarrow> d = None \<and> (\<forall>l \<in> set ls. localized l)
    | Some m \<Rightarrow>
        (Some m = d \<or> (m \<in> set ls \<and> \<not> localized m))
        \<and> (\<forall>l \<in> set ls. \<not> localized l \<longrightarrow> ColorAverage l \<le> ColorAverage m)
        \<and> (\<forall>c. d = Some c \<longrightarrow> ColorAverage c \<le> ColorAverage m))"
proof (induction ls arbitrary: d)
  case Nil
  then show ?case by (cases d) auto
next
  case (Cons l ls)
  show ?case
  proof (cases "GetLightType l = LIGHT_DIRECTIONAL")
    case False
    then show ?thesis
      using Cons.IH [of d]
      by (auto simp: localized_def split: prod.splits option.splits)
  next
    case True
    let ?d' = "case d of None \<Rightarrow> Some l
               | Some cur \<Rightarrow> if ColorAverage l > ColorAverage cur then Some l else Some cur"
    have eq: "snd (findDirLight (l # ls) d) = snd (findDirLight ls ?d')"
      using True by simp
    show ?thesis
      unfolding eq
      using Cons.IH [of ?d'] True
      by (cases d) (fastforce simp: localized_def split: option.splits if_splits)+
  qed
qed

lemma clampLights_take: "clampLights ls = take MAX_LIGHTS ls"
  by (simp add: clampLights_def)

lemma sorted_sortLights: "sorted (map Distance (sortLights ls))"
  by (simp add: sortLights_def)

lemma mset_sortLights: "mset (sortLights ls) = mset ls"
  by (simp add: sortLights_def)

lemma mapF_rel:
  assumes "\<And>x s y s'. f x s = Inr (y, s') \<Longrightarrow> R x y"
  shows "mapF f xs s = Inr (ys, s') \<Longrightarrow> list_all2 R xs ys"
proof (induction xs arbitrary: s ys)
  case Nil
  then show ?case by simp
next
  case (Cons x xs)
  then show ?case
    using assms by (auto split: sum.splits prod.splits)
qed

lemma sameLight_refl: "sameLight l l"
  by (simp add: sameLight_def)

lemma sameLight_trans: "sameLight a b \<Longrightarrow> sameLight b c \<Longrightarrow> sameLight a c"
  by (simp add: sameLight_def)

lemma sameLight_SetShadowMap: "sameLight l (SetShadowMap t rect l)"
  by (simp add: sameLight_def SetShadowMap_def)

lemma AllocateShadowMap_sameLight:
  "AllocateShadowMap ops light sms = Inr (ok, l1, sms1) \<Longrightarrow> sameLight light l1"
  by (auto simp: AllocateShadowMap_def AllocateShadowMap_in_def Let_def SetShadowMap_def
      sameLight_def split: sum.splits if_splits prod.splits option.splits)

lemma reallocateShadowMap_sameLight:
  "reallocateShadowMap ops dirty shadows light sms = Inr (l1, sms1) \<Longrightarrow> sameLight light l1"
  by (auto simp: reallocateShadowMap_def sameLight_SetShadowMap sameLight_refl
      dest: AllocateShadowMap_sameLight split: if_splits sum.splits)

lemma checkDirLight_sameLight:
  "checkDirLight ops dirty shadows d sms = Inr (d1, sms1) \<Longrightarrow> sameLight d d1"
  by (auto simp: checkDirLight_def Let_def SetShadowMap_def sameLight_def
      dest!: AllocateShadowMap_sameLight split: if_splits sum.splits)

lemma setupLight_sameLight:
  "setupLight ops init shadows light st = Inr (l1, st1) \<Longrightarrow> sameLight light l1"
  by (auto simp: setupLight_def Let_def SetShadowMap_def sameLight_def
      dest!: AllocateShadowMap_sameLight split: if_splits sum.splits prod.splits)

lemma setupDirLight_sameLight:
  "setupDirLight init d sms = Inr (d1, sms1) \<Longrightarrow> sameLight d d1"
  by (auto simp: setupDirLight_def sameLight_def split: if_splits sum.splits prod.splits)

lemma list_all2_sameLight_trans:
  "list_all2 sameLight xs ys \<Longrightarrow> list_all2 sameLight ys zs \<Longrightarrow> list_all2 sameLight xs zs"
  by (rule list_all2_trans [where ?P1.0 = sameLight and ?P2.0 = sameLight])
     (auto intro: sameLight_trans)

lemma ProcessLightsWork_lights:
  assumes "ProcessLightsWork ops init r = Inr r'"
  shows "list_all2 sameLight (fst (collectLights r)) (lights r')
       \<and> rel_option sameLight (snd (collectLights r)) (dirLight r')"
proof -
  obtain ls d where cl: "collectLights r = (ls, d)" by (cases "collectLights r")
  from assms cl obtain ls1 sms1 where
    m1: "mapF (reallocateShadowMap ops (shadowMapsDirty r) (drawShadows r)) ls (shadowMaps r) = Inr (ls1, sms1)"
    by (auto simp: ProcessLightsWork_def split: sum.splits prod.splits)
  from assms cl m1 obtain d1 sms2 where
    c1: "(case d of None \<Rightarrow> Inr (None, sms1)
            | Some dl \<Rightarrow> (case checkDirLight ops (shadowMapsDirty r) (drawShadows r) dl sms1 of
                   Inl e \<Rightarrow> Inl e | Inr (dl', sms') \<Rightarrow> Inr (Some dl', sms'))) = Inr (d1, sms2)"
    by (auto simp: ProcessLightsWork_def split: sum.splits prod.splits)
  from assms cl m1 c1 obtain ls2 sms3 tl where
    m2: "mapF (setupLight ops init (drawShadows r)) ls1 (sms2, []) = Inr (ls2, (sms3, tl))"
    by (auto simp: ProcessLightsWork_def split: sum.splits prod.splits)
  from assms cl m1 c1 m2 obtain d2 sms4 where
    c2: "(case d1 of None \<Rightarrow> Inr (None, sms3)
            | Some dl \<Rightarrow> (case setupDirLight init dl sms3 of
                   Inl e \<Rightarrow> Inl e | Inr (dl', sms') \<Rightarrow> Inr (Some dl', sms'))) = Inr (d2, sms4)"
    and r': "lights r' = ls2" "dirLight r' = d2"
    by (auto simp: ProcessLightsWork_def split: sum.splits prod.splits)
  have a: "list_all2 sameLight ls ls1"
    using mapF_rel [OF _ m1, of sameLight] reallocateShadowMap_sameLight by blast
  have b: "list_all2 sameLight ls1 ls2"
    using mapF_rel [OF _ m2, of sameLight] setupLight_sameLight by blast
  have c: "rel_option sameLight d d1"
    using c1 by (auto split: option.splits sum.splits prod.splits dest: checkDirLight_sameLight)
  have e: "rel_option sameLight d1 d2"
    using c2 by (auto split: option.splits sum.splits prod.splits dest: setupDirLight_sameLight)
  have "rel_option sameLight d d2"
    using c e by (cases d; cases d1; cases d2) (auto intro: sameLight_trans)
  then show ?thesis
    using list_all2_sameLight_trans [OF a b] cl r' by simp
qed

lemma sorted_take_drop:
  assumes "sorted (map f xs)"
  shows "sorted (map f (take n xs))"
    and "\<forall>a \<in> set (take n xs). \<forall>b \<in> set (drop n xs). f a \<le> f b"
proof -
  have "sorted (map f (take n xs) @ map f (drop n xs))"
    using assms by (simp flip: map_append)
  then show "sorted (map f (take n xs))"
    and "\<forall>a \<in> set (take n xs). \<forall>b \<in> set (drop n xs). f a \<le> f b"
    by (auto simp: sorted_append)
qed

lemma list_all2_sameLight_maps:
  assumes "list_all2 sameLight xs ys"
  shows "map Distance ys = map Distance xs" and "map lightAddr ys = map lightAddr xs"
    and "map GetLightType ys = map GetLightType xs" and "length ys = length xs"
  using assms by (induction rule: list_all2_induct) (auto simp: sameLight_def)

lemma collectLights_fst:
  "fst (collectLights r) = take MAX_LIGHTS (sortLights (filter localized (mergedLights r)))"
proof -
  obtain kept d where f: "findDirLight (mergedLights r) (dirLight r) = (kept, d)"
    by (cases "findDirLight (mergedLights r) (dirLight r)")
  then have "kept = filter localized (mergedLights r)"
    using findDirLight_kept [of "mergedLights r" "dirLight r"] by simp
  then show ?thesis
    using f by (simp add: collectLights_def clampLights_take flip: mergedLights_def)
qed

lemma collectLights_snd:
  "snd (collectLights r) = snd (findDirLight (mergedLights r) (dirLight r))"
  by (simp add: collectLights_def split: prod.splits flip: mergedLights_def)

lemma ProcessLightsWork_sorted:
  assumes "ProcessLightsWork ops init r = Inr r'"
  shows "sorted (map Distance (lights r'))
     \<and> length (lights r') \<le> MAX_LIGHTS
     \<and> length (lights r') = min MAX_LIGHTS (length (filter localized (mergedLights r)))
     \<and> list_all2 sameLight
          (take MAX_LIGHTS (sortLights (filter localized (mergedLights r)))) (lights r')
     \<and> (\<forall>kept \<in> set (lights r').
          \<forall>dropped \<in> set (drop MAX_LIGHTS (sortLights (filter localized (mergedLights r)))).
            Distance kept \<le> Distance dropped)"
proof -
  let ?s = "sortLights (filter localized (mergedLights r))"
  have rel: "list_all2 sameLight (take MAX_LIGHTS ?s) (lights r')"
    using ProcessLightsWork_lights [OF assms] by (simp add: collectLights_fst)
  note maps = list_all2_sameLight_maps [OF rel]
  have srt: "sorted (map Distance ?s)" by (rule sorted_sortLights)
  have len: "length ?s = length (filter localized (mergedLights r))"
    by (simp add: sortLights_def)
  have 1: "sorted (map Distance (lights r'))"
    unfolding maps(1) by (rule sorted_take_drop(1) [OF srt])
  have 2: "length (lights r') = min MAX_LIGHTS (length (filter localized (mergedLights r)))"
    unfolding maps(4) using len by (simp add: min.commute)
  have 3: "\<forall>kept \<in> set (lights r'). \<forall>dropped \<in> set (drop MAX_LIGHTS ?s).
            Distance kept \<le> Distance dropped"
  proof (intro ballI)
    fix kept dropped
    assume k: "kept \<in> set (lights r')" and d: "dropped \<in> set (drop MAX_LIGHTS ?s)"
    from k have "Distance kept \<in> set (map Distance (lights r'))" by simp
    then have "Distance kept \<in> set (map Distance (take MAX_LIGHTS ?s))"
      unfolding maps(1) .
    then obtain k0 where "k0 \<in> set (take MAX_LIGHTS ?s)" "Distance k0 = Distance kept"
      by auto
    then show "Distance kept \<le> Distance dropped"
      using sorted_take_drop(2) [OF srt, of MAX_LIGHTS] d by metis
  qed
  show ?thesis using 1 2 3 rel by simp
qed

lemma mapF_total:
  assumes step: "\<And>x s. I s \<Longrightarrow> \<exists>y s'. f x s = Inr (y, s') \<and> I s'"
  shows "I s \<Longrightarrow> \<exists>ys s'. mapF f xs s = Inr (ys, s') \<and> I s'"
proof (induction xs arbitrary: s)
  case Nil
  then show ?case by simp
next
  case (Cons x xs)
  from step [OF Cons.prems, of x] obtain y s1 where 1: "f x s = Inr (y, s1)" "I s1" by blast
  from Cons.IH [OF 1(2)] obtain ys s2 where 2: "mapF f xs s1 = Inr (ys, s2)" "I s2" by blast
  show ?case using 1 2 by simp
qed

lemma AllocateShadowMap_total:
  assumes "2 \<le> length sms"
  shows "\<exists>ok l1 sms1. AllocateShadowMap ops light sms = Inr (ok, l1, sms1)
           \<and> length sms1 = length sms"
  using assms
  by (auto simp: AllocateShadowMap_def Let_def vector_at_def split: prod.splits)

lemma reallocateShadowMap_total:
  assumes "2 \<le> length sms"
  shows "\<exists>l1 sms1. reallocateShadowMap ops dirty shadows light sms = Inr (l1, sms1)
           \<and> 2 \<le> length sms1"
proof (cases "\<not> dirty \<and> shadows \<and> ShadowStrength light < 1 \<and> ShadowRect light \<noteq> IntRect_ZERO")
  case True
  from AllocateShadowMap_total [OF assms, of ops light] obtain ok l1 sms1 where
    "AllocateShadowMap ops light sms = Inr (ok, l1, sms1)" "length sms1 = length sms" by blast
  then show ?thesis using True assms by (simp add: reallocateShadowMap_def)
next
  case False
  then show ?thesis using assms by (auto simp: reallocateShadowMap_def)
qed

lemma checkDirLight_total:
  assumes "2 \<le> length sms"
  shows "\<exists>d1 sms1. checkDirLight ops dirty shadows d sms = Inr (d1, sms1)
           \<and> 2 \<le> length sms1"
proof (cases "shadows \<and> ShadowStrength (if dirty then SetShadowMap None IntRect_ZERO d else d) < 1")
  case True
  from AllocateShadowMap_total [OF assms, of ops "if dirty then SetShadowMap None IntRect_ZERO d else d"]
  obtain ok l1 sms1 where
    "AllocateShadowMap ops (if dirty then SetShadowMap None IntRect_ZERO d else d) sms = Inr (ok, l1, sms1)"
    "length sms1 = length sms" by blast
  then show ?thesis using True assms by (simp add: checkDirLight_def Let_def)
next
  case False
  then show ?thesis using assms by (auto simp: checkDirLight_def Let_def SetShadowMap_def)
qed

lemma setupLight_total:
  assumes "2 \<le> length (fst st)"
  shows "\<exists>l1 st1. setupLight ops init shadows light st = Inr (l1, st1)
           \<and> 2 \<le> length (fst st1)"
proof -
  obtain sms tks where st: "st = (sms, tks)" by (cases st)
  have len: "2 \<le> length sms" using assms st by simp
  have b: "vector_at sms 1 = Inr (sms ! 1)" using len by (simp add: vector_at_def)
  show ?thesis
  proof (cases "shadows \<and> ShadowStrength light < 1")
    case False
    then show ?thesis using len st b by (auto simp: setupLight_def)
  next
    case True
    obtain ok l1 sms1 where
      a: "(if lightShadowMap light = None then AllocateShadowMap ops light sms
           else Inr (True, light, sms)) = Inr (ok, l1, sms1)" and l1: "length sms1 = length sms"
      using AllocateShadowMap_total [OF len, of ops light] by (cases "lightShadowMap light = None") auto
    have v: "vector_at sms1 1 = Inr (sms1 ! 1)"
      using len l1 by (simp add: vector_at_def)
    show ?thesis
      using True st a l1 len v b
      by (cases "lightShadowMap light = None")
         (auto simp: setupLight_def Let_def split: prod.splits)
  qed
qed

lemma setupDirLight_total:
  assumes "lightShadowMap d \<noteq> None \<longrightarrow> 0 < length sms"
  shows "\<exists>d1 sms1. setupDirLight init d sms = Inr (d1, sms1)"
  using assms by (auto simp: setupDirLight_def vector_at_def split: prod.splits)



lemma ProcessLightsWork_total:
  assumes wf: "2 \<le> length (shadowMaps r)"
  shows "\<exists>r'. ProcessLightsWork ops init r = Inr r'"
proof -
  let ?sh = "drawShadows r"
  obtain ls d where cl: "collectLights r = (ls, d)" by (cases "collectLights r")
  obtain ls1 sms1 where
    m1: "mapF (reallocateShadowMap ops (shadowMapsDirty r) ?sh) ls (shadowMaps r) = Inr (ls1, sms1)"
    and i1: "2 \<le> length sms1"
    using mapF_total [where I = "\<lambda>sms. 2 \<le> length sms"
        and f = "reallocateShadowMap ops (shadowMapsDirty r) ?sh" and s = "shadowMaps r" and xs = ls]
      reallocateShadowMap_total wf by blast
  obtain d1 sms2 where
    c1: "(case d of None \<Rightarrow> Inr (None, sms1)
            | Some dl \<Rightarrow> (case checkDirLight ops (shadowMapsDirty r) ?sh dl sms1 of
                   Inl e \<Rightarrow> Inl e | Inr (dl', sms') \<Rightarrow> Inr (Some dl', sms'))) = Inr (d1, sms2)"
    and i2: "2 \<le> length sms2"
  proof (cases d)
    case None
    then show ?thesis using that [of None sms1] i1 by simp
  next
    case (Some dl)
    from checkDirLight_total [OF i1, of ops "shadowMapsDirty r" ?sh dl] obtain dl' sms' where
      "checkDirLight ops (shadowMapsDirty r) ?sh dl sms1 = Inr (dl', sms')"
      "2 \<le> length sms'" by blast
    then show ?thesis using that [of "Some dl'" sms'] Some by simp
  qed
  obtain ls2 st3 where
    m2: "mapF (setupLight ops init ?sh) ls1 (sms2, []) = Inr (ls2, st3)"
    and i3: "2 \<le> length (fst st3)"
    using mapF_total [where I = "\<lambda>st. 2 \<le> length (fst st)"
        and f = "setupLight ops init ?sh" and s = "(sms2, [])" and xs = ls1]
      setupLight_total i2 by (metis fst_conv)
  obtain sms3 tks where st3: "st3 = (sms3, tks)" by (cases st3)
  obtain d2 sms4 where
    c2: "(case d1 of None \<Rightarrow> Inr (None, sms3)
            | Some dl \<Rightarrow> (case setupDirLight init dl sms3 of
                   Inl e \<Rightarrow> Inl e | Inr (dl', sms') \<Rightarrow> Inr (Some dl', sms'))) = Inr (d2, sms4)"
  proof (cases d1)
    case None
    then show ?thesis using that [of None sms3] by simp
  next
    case (Some dl)
    have "lightShadowMap dl \<noteq> None \<longrightarrow> 0 < length sms3"
      using i3 st3 by auto
    from setupDirLight_total [OF this, of init] obtain dl' sms' where
      "setupDirLight init dl sms3 = Inr (dl', sms')" by blast
    then show ?thesis using that [of "Some dl'" sms'] Some by simp
  qed
  show ?thesis
    using cl m1 c1 m2 st3 c2 by (simp add: ProcessLightsWork_def)
qed

lemma mapF_pure:
  assumes "\<And>x. f x s = Inr (g x, s)"
  shows "mapF f xs s = Inr (map g xs, s)"
  using assms by (induction xs) auto

lemma ProcessLightsWork_no_shadows:
  assumes ns: "\<not> drawShadows r"
    and rng: "2 \<le> length (shadowMaps r) \<or> fst (collectLights r) = []"
  shows "ProcessLightsWork ops init r =
           Inr (r\<lparr>lights := map (SetShadowMap None IntRect_ZERO) (fst (collectLights r)),
                  dirLight := map_option (SetShadowMap None IntRect_ZERO) (snd (collectLights r)),
                  shadowMapsDirty := False\<rparr>)"
proof -
  let ?clr = "SetShadowMap None IntRect_ZERO :: 'b LightDrawable \<Rightarrow> 'b LightDrawable"
  let ?g = "\<lambda>l. if shadowMapsDirty r then ?clr l else l"
  obtain ls d where cl: "collectLights r = (ls, d)" by (cases "collectLights r")
  have m1: "mapF (reallocateShadowMap ops (shadowMapsDirty r) (drawShadows r)) ls (shadowMaps r)
              = Inr (map ?g ls, shadowMaps r)"
    by (rule mapF_pure) (simp add: reallocateShadowMap_def ns)
  have c1: "checkDirLight ops (shadowMapsDirty r) (drawShadows r) dl (shadowMaps r)
              = Inr (?clr dl, shadowMaps r)" for dl
    using ns by (simp add: checkDirLight_def Let_def SetShadowMap_def)
  have m2: "mapF (setupLight ops init (drawShadows r)) (map ?g ls) (shadowMaps r, [])
              = Inr (map ?clr (map ?g ls), (shadowMaps r, []))"
  proof (cases "2 \<le> length (shadowMaps r)")
    case True
    then have "vector_at (shadowMaps r) 1 = Inr (shadowMaps r ! 1)" by (simp add: vector_at_def)
    then show ?thesis
      by (intro mapF_pure) (simp add: setupLight_def ns)
  next
    case False
    then have "ls = []" using rng cl by simp
    then show ?thesis by simp
  qed
  have idem: "?clr \<circ> ?g = ?clr"
    by (auto simp: fun_eq_iff SetShadowMap_def)
  have c2: "setupDirLight init (?clr dl) (shadowMaps r) = Inr (?clr dl, shadowMaps r)" for dl
    by (simp add: setupDirLight_def SetShadowMap_def)
  show ?thesis
    unfolding ProcessLightsWork_def cl
    by (cases d) (simp_all add: m1 c1 m2 idem c2 del: mapF.simps)
qed


lemma reserveViews_views:
  "reserveViews st addr cl j vs sm = (vs', sm') \<Longrightarrow>
   fst ` set (shadowViews sm') \<subseteq> insert addr (fst ` set (shadowViews sm))"
proof (induction vs arbitrary: j sm vs')
  case Nil
  then show ?case by auto
next
  case (Cons v vs)
  define sm3 where "sm3 =
     (let sm1 = sm\<lparr>freeQueueIdx := freeQueueIdx sm + (if st then 2 else 1)\<rparr>;
          sm2 = (if length (shadowBatches sm1) < freeQueueIdx sm1
                 then sm1\<lparr>shadowBatches := resize_vector (freeQueueIdx sm1) [] (shadowBatches sm1)\<rparr>
                 else sm1)
      in sm2\<lparr>shadowViews := shadowViews sm2 @ [(addr, j)]\<rparr>)"
  have mid: "shadowViews sm3 = shadowViews sm @ [(addr, j)]"
    by (simp add: sm3_def Let_def)
  have "snd (reserveViews st addr cl j (v # vs) sm) = snd (reserveViews st addr cl (j + 1) vs sm3)"
    by (simp add: sm3_def Let_def split: prod.splits)
  then have rec: "reserveViews st addr cl (j + 1) vs sm3
                    = (fst (reserveViews st addr cl (j + 1) vs sm3), sm')"
    using Cons.prems by (simp add: prod_eq_iff)
  from Cons.IH [OF rec] mid show ?case by auto
qed

lemma reserveDirViews_views:
  "reserveDirViews addr j vs sm = (vs', sm') \<Longrightarrow>
   fst ` set (shadowViews sm') \<subseteq> insert addr (fst ` set (shadowViews sm))"
proof (induction vs arbitrary: j sm vs')
  case Nil
  then show ?case by auto
next
  case (Cons v vs)
  define sm5 where "sm5 =
     (let sm1 = sm\<lparr>freeCasterListIdx := freeCasterListIdx sm + 1\<rparr>;
          sm2 = (if length (shadowCasters sm1) < freeCasterListIdx sm1
                 then sm1\<lparr>shadowCasters := resize_vector (freeCasterListIdx sm1) [] (shadowCasters sm1)\<rparr>
                 else sm1);
          sm3 = sm2\<lparr>freeQueueIdx := freeQueueIdx sm2 + 1\<rparr>;
          sm4 = (if length (shadowBatches sm3) < freeQueueIdx sm3
                 then sm3\<lparr>shadowBatches := resize_vector (freeQueueIdx sm3) [] (shadowBatches sm3)\<rparr>
                 else sm3)
      in sm4\<lparr>shadowViews := shadowViews sm4 @ [(addr, j)]\<rparr>)"
  have mid: "shadowViews sm5 = shadowViews sm @ [(addr, j)]"
    by (simp add: sm5_def Let_def)
  have "snd (reserveDirViews addr j (v # vs) sm) = snd (reserveDirViews addr (j + 1) vs sm5)"
    by (simp add: sm5_def Let_def split: prod.splits)
  then have rec: "reserveDirViews addr (j + 1) vs sm5
                    = (fst (reserveDirViews addr (j + 1) vs sm5), sm')"
    using Cons.prems by (simp add: prod_eq_iff)
  from Cons.IH [OF rec] mid show ?case by auto
qed

lemma viewLights_update:
  assumes "i < length sms" and "fst ` set (shadowViews sm') \<subseteq> A \<union> fst ` set (shadowViews (sms ! i))"
  shows "viewLights (sms[i := sm']) \<subseteq> A \<union> viewLights sms"
proof
  fix a
  assume "a \<in> viewLights (sms[i := sm'])"
  then obtain sm where sm: "sm \<in> set (sms[i := sm'])" and a: "a \<in> fst ` set (shadowViews sm)"
    unfolding viewLights_def by blast
  from sm have "sm = sm' \<or> sm \<in> set sms"
    using set_update_subset_insert [of sms i sm'] by blast
  then show "a \<in> A \<union> viewLights sms"
  proof
    assume "sm = sm'"
    then have "a \<in> A \<union> fst ` set (shadowViews (sms ! i))" using a assms(2) by blast
    moreover have "sms ! i \<in> set sms" using assms(1) by simp
    ultimately show ?thesis unfolding viewLights_def by blast
  next
    assume "sm \<in> set sms"
    then show ?thesis using a unfolding viewLights_def by blast
  qed
qed

lemma AllocateShadowMap_in_views:
  "AllocateShadowMap_in ops light sm = (ok, l1, sm1) \<Longrightarrow> shadowViews sm1 = shadowViews sm"
  by (auto simp: AllocateShadowMap_in_def Let_def split: if_splits prod.splits option.splits)

lemma AllocateShadowMap_views:
  assumes "AllocateShadowMap ops light sms = Inr (ok, l1, sms1)"
  shows "viewLights sms1 \<subseteq> viewLights sms"
proof -
  let ?i = "if GetLightType light = LIGHT_DIRECTIONAL then 0 else (1::nat)"
  from assms have i: "?i < length sms"
    by (auto simp: AllocateShadowMap_def Let_def vector_at_def split: sum.splits if_splits)
  from assms i obtain sm1 where r: "AllocateShadowMap_in ops light (sms ! ?i) = (ok, l1, sm1)"
    and s1: "sms1 = sms[?i := sm1]"
    by (auto simp: AllocateShadowMap_def Let_def vector_at_def split: sum.splits prod.splits if_splits)
  show ?thesis
    unfolding s1
    using viewLights_update [OF i, of sm1 "{}"] AllocateShadowMap_in_views [OF r] by simp
qed

lemma reallocateShadowMap_views:
  "reallocateShadowMap ops dirty shadows light sms = Inr (l1, sms1) \<Longrightarrow>
   viewLights sms1 \<subseteq> viewLights sms"
  by (auto simp: reallocateShadowMap_def split: if_splits sum.splits
      dest!: AllocateShadowMap_views)

lemma checkDirLight_views:
  "checkDirLight ops dirty shadows d sms = Inr (d1, sms1) \<Longrightarrow>
   viewLights sms1 \<subseteq> viewLights sms"
  by (auto simp: checkDirLight_def Let_def split: if_splits sum.splits
      dest!: AllocateShadowMap_views)

lemma mapF_reallocateShadowMap_views:
  "mapF (reallocateShadowMap ops dirty shadows) xs sms = Inr (ys, sms') \<Longrightarrow>
   viewLights sms' \<subseteq> viewLights sms"
proof (induction xs arbitrary: sms ys)
  case Nil
  then show ?case by simp
next
  case (Cons x xs)
  from Cons.prems obtain y s1 ys' where
    1: "reallocateShadowMap ops dirty shadows x sms = Inr (y, s1)"
    and 2: "mapF (reallocateShadowMap ops dirty shadows) xs s1 = Inr (ys', sms')"
    by (auto split: sum.splits prod.splits)
  show ?case
    using reallocateShadowMap_views [OF 1] Cons.IH [OF 2] by blast
qed

lemma setupLight_effects:
  assumes "setupLight ops init shadows light (sms, tks) = Inr (l1, (sms', tks'))"
  shows "viewLights sms' \<subseteq> insert (lightAddr l1) (viewLights sms)
       \<and> (tks' = tks \<or> tks' = tks @ [lightAddr l1])"
proof (cases "\<not> shadows \<or> ShadowStrength light \<ge> 1")
  case True
  then show ?thesis using assms setupLight_bound [OF assms] by (auto simp: setupLight_def)
next
  case False
  note b = setupLight_bound [OF assms]
  from False obtain ok light1 sms1 where
    a: "(if lightShadowMap light = None then AllocateShadowMap ops light sms
         else Inr (True, light, sms)) = Inr (ok, light1, sms1)"
    using assms b by (auto simp: setupLight_def split: sum.splits)
  have v1: "viewLights sms1 \<subseteq> viewLights sms"
    using a AllocateShadowMap_views [of ops light sms ok light1 sms1]
    by (cases "lightShadowMap light = None") auto
  show ?thesis
  proof (cases ok)
    case False
    then show ?thesis
      using assms \<open>\<not> (\<not> shadows \<or> ShadowStrength light \<ge> 1)\<close> a v1 b
      by (auto simp: setupLight_def)
  next
    case True
    define sm2 where "sm2 =
      (let sm = sms1 ! 1;
           sm1 = sm\<lparr>freeCasterListIdx := freeCasterListIdx sm + 1\<rparr>
       in if length (shadowCasters sm1) < freeCasterListIdx sm1
          then sm1\<lparr>shadowCasters := resize_vector (freeCasterListIdx sm1) [] (shadowCasters sm1)\<rparr>
          else sm1)"
    have sv2: "shadowViews sm2 = shadowViews (sms1 ! 1)"
      by (simp add: sm2_def Let_def)
    obtain views' sm3 where
      rv: "reserveViews (IsStatic light1) (lightAddr light1) (freeCasterListIdx (sms1 ! 1)) 0
             (init light1) sm2 = (views', sm3)"
      by (cases "reserveViews (IsStatic light1) (lightAddr light1) (freeCasterListIdx (sms1 ! 1)) 0
             (init light1) sm2")
    have res: "1 < length sms1 \<and> l1 = light1\<lparr>ShadowViews := views'\<rparr>
               \<and> sms' = sms1[1 := sm3] \<and> tks' = tks @ [lightAddr light1]"
      using assms \<open>\<not> (\<not> shadows \<or> ShadowStrength light \<ge> 1)\<close> a True rv b
      by (auto simp: setupLight_def vector_at_def Let_def sm2_def split: if_splits)
    have "fst ` set (shadowViews sm3) \<subseteq> {lightAddr light1} \<union> fst ` set (shadowViews (sms1 ! 1))"
      using reserveViews_views [OF rv] sv2 by auto
    from viewLights_update [OF _ this] res
    have "viewLights sms' \<subseteq> {lightAddr light1} \<union> viewLights sms1" by simp
    then show ?thesis using v1 res by auto
  qed
qed

lemma mapF_setupLight_effects:
  "mapF (setupLight ops init shadows) xs (sms, tks) = Inr (ys, (sms', tks')) \<Longrightarrow>
   viewLights sms' \<subseteq> viewLights sms \<union> lightAddr ` set ys
   \<and> (\<exists>added. tks' = tks @ added \<and> set added \<subseteq> lightAddr ` set ys)"
proof (induction xs arbitrary: sms tks ys)
  case Nil
  then show ?case by simp
next
  case (Cons x xs)
  from Cons.prems obtain y sms1 tks1 ys' where
    1: "setupLight ops init shadows x (sms, tks) = Inr (y, (sms1, tks1))"
    and 2: "mapF (setupLight ops init shadows) xs (sms1, tks1) = Inr (ys', (sms', tks'))"
    and ys: "ys = y # ys'"
    by (auto split: sum.splits prod.splits)
  from setupLight_effects [OF 1]
  have a: "viewLights sms1 \<subseteq> insert (lightAddr y) (viewLights sms)"
    and b: "tks1 = tks \<or> tks1 = tks @ [lightAddr y]" by auto
  from Cons.IH [OF 2] obtain added where
    c: "viewLights sms' \<subseteq> viewLights sms1 \<union> lightAddr ` set ys'"
    and d: "tks' = tks1 @ added" "set added \<subseteq> lightAddr ` set ys'" by blast
  have v: "viewLights sms' \<subseteq> viewLights sms \<union> lightAddr ` set ys"
    using a c ys by auto
  from b show ?case
  proof
    assume "tks1 = tks"
    then have "tks' = tks @ added" "set added \<subseteq> lightAddr ` set ys"
      using d ys by auto
    then show ?thesis using v by blast
  next
    assume "tks1 = tks @ [lightAddr y]"
    then have "tks' = tks @ (lightAddr y # added)" "set (lightAddr y # added) \<subseteq> lightAddr ` set ys"
      using d ys by auto
    then show ?thesis using v by blast
  qed
qed

lemma setupDirLight_views:
  assumes "setupDirLight init d sms = Inr (d1, sms1)"
  shows "viewLights sms1 \<subseteq> insert (lightAddr d1) (viewLights sms)"
proof (cases "lightShadowMap d = None")
  case True
  then show ?thesis using assms by (auto simp: setupDirLight_def)
next
  case False
  obtain views' sm' where
    rv: "reserveDirViews (lightAddr d) 0 (init d) (sms ! 0) = (views', sm')"
    by (cases "reserveDirViews (lightAddr d) 0 (init d) (sms ! 0)")
  have res: "0 < length sms \<and> d1 = d\<lparr>ShadowViews := views'\<rparr> \<and> sms1 = sms[0 := sm']"
    using assms False rv by (auto simp: setupDirLight_def vector_at_def split: if_splits)
  have "fst ` set (shadowViews sm') \<subseteq> {lightAddr d} \<union> fst ` set (shadowViews (sms ! 0))"
    using reserveDirViews_views [OF rv] by auto
  from viewLights_update [OF _ this] res show ?thesis by auto
qed

lemma queuedTasks_fold_AddDependency:
  "queuedTasks (fold (AddDependency t) ts wq) = queuedTasks wq"
  by (induction ts arbitrary: wq) (auto simp: AddDependency_def)

lemma ProcessLightsWork_effects:
  assumes run: "ProcessLightsWork ops init r = Inr r'"
  shows "(\<exists>addrs. queuedTasks (workQueue r')
                   = queuedTasks (workQueue r) @ map CollectShadowCastersTask addrs
                 \<and> set addrs \<subseteq> lightAddr ` set (lights r'))
       \<and> viewLights (shadowMaps r')
           \<subseteq> viewLights (shadowMaps r) \<union> lightAddr ` set (lights r')
              \<union> lightAddr ` set_option (dirLight r')"
proof -
  obtain ls d where cl: "collectLights r = (ls, d)" by (cases "collectLights r")
  from run cl obtain ls1 sms1 where
    m1: "mapF (reallocateShadowMap ops (shadowMapsDirty r) (drawShadows r)) ls (shadowMaps r) = Inr (ls1, sms1)"
    by (auto simp: ProcessLightsWork_def split: sum.splits prod.splits)
  from run cl m1 obtain d1 sms2 where
    c1: "(case d of None \<Rightarrow> Inr (None, sms1)
            | Some dl \<Rightarrow> (case checkDirLight ops (shadowMapsDirty r) (drawShadows r) dl sms1 of
                   Inl e \<Rightarrow> Inl e | Inr (dl', sms') \<Rightarrow> Inr (Some dl', sms'))) = Inr (d1, sms2)"
    by (auto simp: ProcessLightsWork_def split: sum.splits prod.splits)
  from run cl m1 c1 obtain ls2 sms3 tks where
    m2: "mapF (setupLight ops init (drawShadows r)) ls1 (sms2, []) = Inr (ls2, (sms3, tks))"
    by (auto simp: ProcessLightsWork_def split: sum.splits prod.splits)
  from run cl m1 c1 m2 obtain d2 sms4 where
    c2: "(case d1 of None \<Rightarrow> Inr (None, sms3)
            | Some dl \<Rightarrow> (case setupDirLight init dl sms3 of
                   Inl e \<Rightarrow> Inl e | Inr (dl', sms') \<Rightarrow> Inr (Some dl', sms'))) = Inr (d2, sms4)"
    and r': "lights r' = ls2" "dirLight r' = d2" "shadowMaps r' = sms4"
      "workQueue r' = (let tasks = map CollectShadowCastersTask tks;
                        wq = fold (AddDependency ProcessShadowCastersTask) tasks (workQueue r)
                    in if length tasks > 0 then QueueTasks tasks wq else wq)"
    by (auto simp: ProcessLightsWork_def split: sum.splits prod.splits)
  have v1: "viewLights sms1 \<subseteq> viewLights (shadowMaps r)"
    by (rule mapF_reallocateShadowMap_views [OF m1])
  have v2: "viewLights sms2 \<subseteq> viewLights sms1"
    using c1 by (auto split: option.splits sum.splits prod.splits dest!: checkDirLight_views)
  from mapF_setupLight_effects [OF m2] obtain added where
    v3: "viewLights sms3 \<subseteq> viewLights sms2 \<union> lightAddr ` set ls2"
    and t3: "tks = added" "set added \<subseteq> lightAddr ` set ls2" by auto
  have v4: "viewLights sms4 \<subseteq> viewLights sms3 \<union> lightAddr ` set_option d2"
    using c2 by (auto split: option.splits sum.splits prod.splits dest!: setupDirLight_views)
  have q: "queuedTasks (workQueue r') = queuedTasks (workQueue r) @ map CollectShadowCastersTask tks"
    by (simp add: r'(4) Let_def QueueTasks_def queuedTasks_fold_AddDependency)
  have "viewLights (shadowMaps r')
           \<subseteq> viewLights (shadowMaps r) \<union> lightAddr ` set (lights r')
              \<union> lightAddr ` set_option (dirLight r')"
    using v1 v2 v3 v4 unfolding r' by blast
  then show ?thesis using q t3 r'(1) by blast
qed

lemma list_all2_source:
  "list_all2 P xs ys \<Longrightarrow> y \<in> set ys \<Longrightarrow> \<exists>x \<in> set xs. P x y"
  by (induction rule: list_all2_induct) auto

lemma ProcessLightsWork_dominant:
  assumes run: "ProcessLightsWork ops init r = Inr r'" and fresh: "dirLight r = None"
  shows "(\<forall>l \<in> set (lights r'). localized l)
    \<and> (case dirLight r' of
         None \<Rightarrow> (\<forall>l \<in> set (mergedLights r). localized l)
       | Some d \<Rightarrow>
           \<not> localized d
           \<and> (\<exists>m \<in> set (mergedLights r). \<not> localized m \<and> sameLight m d)
           \<and> (\<forall>l \<in> set (mergedLights r). \<not> localized l \<longrightarrow> ColorAverage l \<le> ColorAverage d))"
proof -
  note rel = ProcessLightsWork_lights [OF run]
  have 1: "\<forall>l \<in> set (lights r'). localized l"
  proof
    fix l assume "l \<in> set (lights r')"
    then obtain l0 where "l0 \<in> set (fst (collectLights r))" "sameLight l0 l"
      using rel list_all2_source [of sameLight "fst (collectLights r)" "lights r'" l] by blast
    moreover have "set (fst (collectLights r)) \<subseteq> set (filter localized (mergedLights r))"
      unfolding collectLights_fst
      using set_take_subset [of MAX_LIGHTS "sortLights (filter localized (mergedLights r))"]
      by (simp add: sortLights_def)
    ultimately show "localized l" by (auto simp: localized_def sameLight_def)
  qed
  have dom: "(case snd (collectLights r) of
      None \<Rightarrow> (\<forall>l \<in> set (mergedLights r). localized l)
    | Some m \<Rightarrow> (m \<in> set (mergedLights r) \<and> \<not> localized m)
        \<and> (\<forall>l \<in> set (mergedLights r). \<not> localized l \<longrightarrow> ColorAverage l \<le> ColorAverage m))"
    using findDirLight_dominant [where ls = "mergedLights r" and d = None] fresh
    by (auto simp: collectLights_snd split: option.splits)
  have 2: "(case dirLight r' of
         None \<Rightarrow> (\<forall>l \<in> set (mergedLights r). localized l)
       | Some d \<Rightarrow>
           \<not> localized d
           \<and> (\<exists>m \<in> set (mergedLights r). \<not> localized m \<and> sameLight m d)
           \<and> (\<forall>l \<in> set (mergedLights r). \<not> localized l \<longrightarrow> ColorAverage l \<le> ColorAverage d))"
  proof (cases "dirLight r'")
    case None
    then have "snd (collectLights r) = None" using rel by (cases "snd (collectLights r)") auto
    then show ?thesis using dom None by simp
  next
    case (Some d)
    then obtain m where m: "snd (collectLights r) = Some m" "sameLight m d"
      using rel by (cases "snd (collectLights r)") auto
    from dom m(1) have "m \<in> set (mergedLights r)" "\<not> localized m"
      "\<forall>l \<in> set (mergedLights r). \<not> localized l \<longrightarrow> ColorAverage l \<le> ColorAverage m" by auto
    moreover have "\<not> localized d" "ColorAverage d = ColorAverage m"
      using m(2) \<open>\<not> localized m\<close> by (auto simp: sameLight_def localized_def)
    ultimately show ?thesis using Some m(2) by auto
  qed
  show ?thesis using 1 2 by simp
qed

lemma mergedLights_example: "mergedLights (exampleRenderer sh ls) = ls"
  by (simp add: mergedLights_def exampleRenderer_def)

lemma localized_manyLights: "filter localized manyLights = manyLights"
  by (simp add: manyLights_def localized_def exampleSpotLight_def filter_map o_def)

text \<open>
  Claim C5. When ProcessLightsWork completes, the retained lights are the first
  \<open>MAX_LIGHTS\<close> of the collected point and spot lights in the order of their distances:
  the list is sorted by ascending distance, it has at most 255 entries (all the collected
  ones when there are no more than 255), and every collected light that was dropped is
  at least as far as every retained one. The function completes whenever both shadow
  maps are set up, and also when the shadow flag is off and no point or spot light was
  collected.
\<close>

theorem ProcessLightsWork_sorted_clamped:
  "(\<forall>r'. ProcessLightsWork ops init r = Inr r' \<longrightarrow>
       sorted (map Distance (lights r'))
     \<and> length (lights r') \<le> MAX_LIGHTS
     \<and> length (lights r') = min MAX_LIGHTS (length (filter localized (mergedLights r)))
     \<and> list_all2 sameLight
          (take MAX_LIGHTS (sortLights (filter localized (mergedLights r)))) (lights r')
     \<and> (\<forall>kept \<in> set (lights r').
          \<forall>dropped \<in> set (drop MAX_LIGHTS (sortLights (filter localized (mergedLights r)))).
            Distance kept \<le> Distance dropped))
   \<and> (2 \<le> length (shadowMaps r)
        \<or> (\<not> drawShadows r \<and> filter localized (mergedLights r) = []) \<longrightarrow>
        (\<exists>r'. ProcessLightsWork ops init r = Inr r'))"
proof -
  have none: "fst (collectLights r) = []" if "filter localized (mergedLights r) = []"
    using that by (simp add: collectLights_fst sortLights_def)
  have "\<exists>r'. ProcessLightsWork ops init r = Inr r'"
    if "2 \<le> length (shadowMaps r) \<or> (\<not> drawShadows r \<and> filter localized (mergedLights r) = [])"
    using that ProcessLightsWork_total [of r ops init]
      ProcessLightsWork_no_shadows [of r ops init] none by blast
  then show ?thesis
    using ProcessLightsWork_sorted [of ops init r] by blast
qed

theorem ProcessLightsWork_sorted_clamped_witness:
  "length (filter localized (mergedLights (exampleRenderer False manyLights))) = 300
   \<and> (\<exists>r'. ProcessLightsWork fullAtlas exampleInitShadowViews (exampleRenderer False manyLights)
              = Inr r'
          \<and> length (lights r') = 255 \<and> sorted (map Distance (lights r')))"
proof -
  have len: "length (filter localized (mergedLights (exampleRenderer False manyLights))) = 300"
    by (simp add: mergedLights_example localized_manyLights) (simp add: manyLights_def)
  have wf: "2 \<le> length (shadowMaps (exampleRenderer False manyLights))"
    by (simp add: exampleRenderer_def)
  note inst = ProcessLightsWork_sorted_clamped [of fullAtlas exampleInitShadowViews
      "exampleRenderer False manyLights"]
  from inst wf obtain r' where
    run: "ProcessLightsWork fullAtlas exampleInitShadowViews (exampleRenderer False manyLights)
            = Inr r'" by blast
  with inst have "sorted (map Distance (lights r'))"
    and "length (lights r')
           = min MAX_LIGHTS (length (filter localized (mergedLights (exampleRenderer False manyLights))))"
    by blast+
  then show ?thesis using run len by (auto simp: MAX_LIGHTS_def)
qed

text \<open>
  Claim C6. When ProcessLightsWork completes on a frame that started without a directional
  light: no retained light is directional; the directional light kept is one of the
  collected directional lights and none of them has a greater colour average (and none
  is kept exactly when none was collected); every shadowcaster task queued is for a
  retained point or spot light, and every shadow view added to a shadow map belongs to a
  retained light or to the directional light kept, so the other directional lights get
  neither a task nor a view.
\<close>

theorem ProcessLightsWork_directional:
  assumes run: "ProcessLightsWork ops init r = Inr r'" and fresh: "dirLight r = None"
  shows "(\<forall>l \<in> set (lights r'). localized l)
    \<and> (case dirLight r' of
         None \<Rightarrow> (\<forall>l \<in> set (mergedLights r). localized l)
       | Some d \<Rightarrow>
           \<not> localized d
           \<and> (\<exists>m \<in> set (mergedLights r). \<not> localized m \<and> sameLight m d)
           \<and> (\<forall>l \<in> set (mergedLights r). \<not> localized l \<longrightarrow> ColorAverage l \<le> ColorAverage d))
    \<and> (\<exists>addrs. queuedTasks (workQueue r')
                   = queuedTasks (workQueue r) @ map CollectShadowCastersTask addrs
                 \<and> set addrs \<subseteq> lightAddr ` set (lights r'))
    \<and> viewLights (shadowMaps r')
           \<subseteq> viewLights (shadowMaps r) \<union> lightAddr ` set (lights r')
              \<union> lightAddr ` set_option (dirLight r')"
  using ProcessLightsWork_dominant [OF run fresh] ProcessLightsWork_effects [OF run]
  by simp

theorem ProcessLightsWork_directional_witness:
  "dirLight (exampleRenderer True mixedLights) = None
   \<and> (\<exists>r'. ProcessLightsWork freeAtlas exampleInitShadowViews (exampleRenderer True mixedLights)
              = Inr r'
          \<and> list_all localized (lights r')
          \<and> (\<exists>d. dirLight r' = Some d \<and> ColorAverage d = 3 \<and> lightAddr d = 3)
          \<and> viewLights (shadowMaps r') \<subseteq> {2, 3})"
proof -
  let ?r = "exampleRenderer True mixedLights"
  have fresh: "dirLight ?r = None" by (simp add: exampleRenderer_def)
  have "2 \<le> length (shadowMaps ?r)" by (simp add: exampleRenderer_def)
  from ProcessLightsWork_total [OF this, of freeAtlas exampleInitShadowViews]
  obtain r' where run: "ProcessLightsWork freeAtlas exampleInitShadowViews ?r = Inr r'" by blast
  note inst = ProcessLightsWork_directional [OF run fresh]
  have merged: "mergedLights ?r = mixedLights" by (rule mergedLights_example)
  have 1: "list_all localized (lights r')" using inst by (simp add: list_all_iff)
  have notall: "\<not> (\<forall>l \<in> set (mergedLights ?r). localized l)"
    unfolding merged by (simp add: mixedLights_def localized_def exampleDirLight_def)
  from inst notall obtain d where d: "dirLight r' = Some d"
    and m: "\<exists>m \<in> set (mergedLights ?r). \<not> localized m \<and> sameLight m d"
    and mx: "\<forall>l \<in> set (mergedLights ?r). \<not> localized l \<longrightarrow> ColorAverage l \<le> ColorAverage d"
    by (cases "dirLight r'") auto
  have 2: "ColorAverage d = 3 \<and> lightAddr d = 3"
    using m mx unfolding merged
    by (auto simp: mixedLights_def localized_def exampleDirLight_def exampleSpotLight_def
        sameLight_def)
  have sub: "set (lights r') \<subseteq> {l. localized l}" using inst by auto
  have "\<forall>l \<in> set (lights r'). lightAddr l = 2"
  proof -
    have "list_all2 sameLight (fst (collectLights ?r)) (lights r')"
      using ProcessLightsWork_lights [OF run] by simp
    moreover have "fst (collectLights ?r) = [exampleSpotLight 2 5 IntRect_ZERO]"
      unfolding collectLights_fst merged
      by (simp add: mixedLights_def localized_def exampleDirLight_def
          exampleSpotLight_def sortLights_def MAX_LIGHTS_def)
    ultimately show ?thesis
      by (auto simp: list_all2_Cons1 sameLight_def exampleSpotLight_def)
  qed
  moreover have "viewLights (shadowMaps ?r) = {}"
    by (simp add: viewLights_def exampleRenderer_def exampleShadowMap_def)
  ultimately have 3: "viewLights (shadowMaps r') \<subseteq> {2, 3}"
    using inst d 2 by auto
  show ?thesis using fresh run 1 d 2 3 by blast
qed



end
